theory Spec2Isabelle
  imports Complex_Main "HOL-Library.Log_Nat"
begin

section \<open>Display mode and vectors\<close>

text \<open>
  The enum \<open>AppState\<close> of the application: \<open>TREE\<close> is formation A, \<open>SCATTER\<close> is
  formation B and \<open>ZOOM\<close> is the focus mode.
\<close>

datatype AppState = TREE | SCATTER | ZOOM

text \<open>
  A \<open>THREE.Vector3\<close>. JavaScript numbers are IEEE doubles. Coordinates, scales, the shake
  intensity and the hold progress are read as real numbers, without rounding. The three
  timers that the code compares with thresholds (the two hold timers and the timer of the
  epic sequence) follow the double arithmetic of the next section.
\<close>

record vec3 =
  vx :: real
  vy :: real
  vz :: real

definition V3 :: "real \<Rightarrow> real \<Rightarrow> real \<Rightarrow> vec3" where
  "V3 x y z = \<lparr>vx = x, vy = y, vz = z\<rparr>"

definition sub :: "vec3 \<Rightarrow> vec3 \<Rightarrow> vec3" where
  "sub a b = V3 (vx a - vx b) (vy a - vy b) (vz a - vz b)"

definition add :: "vec3 \<Rightarrow> vec3 \<Rightarrow> vec3" where
  "add a b = V3 (vx a + vx b) (vy a + vy b) (vz a + vz b)"

definition multiplyScalar :: "vec3 \<Rightarrow> real \<Rightarrow> vec3" where
  "multiplyScalar a s = V3 (vx a * s) (vy a * s) (vz a * s)"

definition lengthSq :: "vec3 \<Rightarrow> real" where
  "lengthSq a = vx a * vx a + vy a * vy a + vz a * vz a"

definition length3 :: "vec3 \<Rightarrow> real" where
  "length3 a = sqrt (lengthSq a)"

definition divideScalar :: "vec3 \<Rightarrow> real \<Rightarrow> vec3" where
  "divideScalar a s = multiplyScalar a (1 / s)"

text \<open>\<open>normalize\<close> divides by \<open>this.length() || 1\<close>: a zero vector is divided by one.\<close>

definition normalize :: "vec3 \<Rightarrow> vec3" where
  "normalize a = divideScalar a (if length3 a = 0 then 1 else length3 a)"

definition distanceToSquared :: "vec3 \<Rightarrow> vec3 \<Rightarrow> real" where
  "distanceToSquared a b =
     (vx a - vx b) * (vx a - vx b) + (vy a - vy b) * (vy a - vy b)
       + (vz a - vz b) * (vz a - vz b)"

definition distanceTo :: "vec3 \<Rightarrow> vec3 \<Rightarrow> real" where
  "distanceTo a b = sqrt (distanceToSquared a b)"

text \<open>\<open>a.lerp(v, alpha)\<close>: each coordinate moves by \<open>(v - a) * alpha\<close>.\<close>

definition lerp :: "vec3 \<Rightarrow> vec3 \<Rightarrow> real \<Rightarrow> vec3" where
  "lerp a v alpha =
     V3 (vx a + (vx v - vx a) * alpha) (vy a + (vy v - vy a) * alpha)
        (vz a + (vz v - vz a) * alpha)"

section \<open>Double arithmetic of the timers\<close>

text \<open>
  \<open>toDouble x\<close> is the double nearest to \<open>x\<close>: \<open>x\<close> is scaled by the unit in the last
  place of its binade (53 significant bits), rounded to the nearest integer with ties to
  the even one, and scaled back. \<open>binade x\<close> is the exponent \<open>e\<close> with
  \<open>2^e \<le> x < 2^(e+1)\<close>. Overflow and subnormal numbers are left out: the timers stay far
  from both. \<open>a += b\<close> on two doubles stores \<open>fadd a b\<close>, and the literals \<open>0.1\<close> and
  \<open>0.016\<close> of the source denote the doubles \<open>tickStep\<close> and \<open>frameStep\<close>.
\<close>

definition roundHalfEven :: "real \<Rightarrow> int" where
  "roundHalfEven x =
     (let f = \<lfloor>x\<rfloor>; d = x - of_int f
      in if d < 1 / 2 then f else if d > 1 / 2 then f + 1 else if even f then f else f + 1)"

definition binade :: "real \<Rightarrow> int" where
  "binade x =
     (if 1 \<le> x then int (floorlog 2 (nat \<lfloor>x\<rfloor>)) - 1
      else - int (floorlog 2 (nat (\<lceil>1 / x\<rceil> - 1))))"

definition toDouble :: "real \<Rightarrow> real" where
  "toDouble x =
     (if x = 0 then 0
      else (let u = 2 powi (binade \<bar>x\<bar> - 52)
            in sgn x * of_int (roundHalfEven (\<bar>x\<bar> / u)) * u))"

definition fadd :: "real \<Rightarrow> real \<Rightarrow> real" where
  "fadd a b = toDouble (a + b)"

definition tickStep :: real where
  "tickStep = toDouble (1 / 10)"

definition frameStep :: real where
  "frameStep = toDouble (16 / 1000)"

section \<open>Particle formation model: \<open>updateInstancedSystem\<close>\<close>

text \<open>
  One entry of a group's \<open>dataArray\<close>. The arrays are typed \<open>any[]\<close>, and the loop guards
  against a target that is not there, so the two formation positions are optional.
\<close>

record particle =
  treePos :: "vec3 option"
  scatterPos :: "vec3 option"
  currentPos :: vec3
  scale :: real
  rotSpeedX :: real
  rotSpeedY :: real
  rotationX :: real
  rotationY :: real

text \<open>The \<open>type\<close> argument: the six groups \<open>animate\<close> updates.\<close>

datatype ptype = Gold | Silver | Gem | Emerald | Trunk | Grass

text \<open>\<open>logicDataRef.current.textTargets\<close>, when it is not null.\<close>

record text_targets =
  gold :: "vec3 list"
  silver :: "vec3 list"

text \<open>
  What one call reads besides the group's array: the display mode passed in, the epic
  flag and timer, the repulsion point with the inverse world matrix of the group (taken
  as the function it applies to a point), and the glyph point clouds.
\<close>

record tick_env =
  state :: AppState
  isEpic :: bool
  epicTime :: real
  repelPos :: "vec3 option"
  toLocal :: "vec3 \<Rightarrow> vec3"
  textTargets :: "text_targets option"

definition formingText :: "tick_env \<Rightarrow> bool" where
  "formingText env \<longleftrightarrow> isEpic env \<and> epicTime env > 4 \<and> epicTime env < 16"

definition participatesInText :: "ptype \<Rightarrow> bool" where
  "participatesInText ty \<longleftrightarrow> ty = Gold \<or> ty = Silver \<or> ty = Gem"

text \<open>Lines 1216 to 1226: the target before the guard; \<open>None\<close> is JavaScript's undefined.\<close>

definition resolveTarget :: "tick_env \<Rightarrow> ptype \<Rightarrow> nat \<Rightarrow> particle \<Rightarrow> vec3 option" where
  "resolveTarget env ty i item =
     (let target = (if state env = TREE then treePos item else scatterPos item);
          target = (if state env = ZOOM then scatterPos item else target)
      in case textTargets env of
           None \<Rightarrow> target
         | Some tt \<Rightarrow>
             if formingText env \<and> participatesInText ty then
               if ty = Gold \<and> length (gold tt) > 0
                 then Some (gold tt ! (i mod length (gold tt)))
               else if (ty = Silver \<or> ty = Gem) \<and> length (silver tt) > 0
                 then Some (silver tt ! (i mod length (silver tt)))
               else target
             else target)"

text \<open>Lines 1231 to 1237: the position after the repulsion nudge.\<close>

definition repelApplies :: "tick_env \<Rightarrow> particle \<Rightarrow> bool" where
  "repelApplies env item \<longleftrightarrow>
     (case repelPos env of
        None \<Rightarrow> False
      | Some rp \<Rightarrow> state env = TREE \<and> \<not> isEpic env
                   \<and> distanceTo (currentPos item) (toLocal env rp) < 18)"

definition nudge :: "tick_env \<Rightarrow> particle \<Rightarrow> vec3" where
  "nudge env item =
     (case repelPos env of
        None \<Rightarrow> currentPos item
      | Some rp \<Rightarrow>
          if state env = TREE \<and> \<not> isEpic env then
            (let localRepel = toLocal env rp in
             if distanceTo (currentPos item) localRepel < 18 then
               (let pushDir = normalize (sub (currentPos item) localRepel)
                in add (currentPos item) (multiplyScalar pushDir 0.2))
             else currentPos item)
          else currentPos item)"

definition speed :: "tick_env \<Rightarrow> real" where
  "speed env = (if formingText env then 0.08 else 0.05)"

text \<open>
  The guard of line 1229 binds \<open>target\<close> to the object \<open>item.currentPos\<close> itself, so when
  the nudge then moves \<open>currentPos\<close> the target moves with it: the easing step of line
  1240 reads the nudged position on both sides.
\<close>

definition guardedTarget :: "vec3 option \<Rightarrow> vec3 \<Rightarrow> vec3" where
  "guardedTarget target cur = (case target of None \<Rightarrow> cur | Some t \<Rightarrow> t)"

definition ease :: "tick_env \<Rightarrow> vec3 option \<Rightarrow> vec3 \<Rightarrow> vec3" where
  "ease env target cur = lerp cur (guardedTarget target cur) (speed env)"

text \<open>What \<open>dummy\<close> holds when \<open>updateMatrix\<close> composes the instance matrix.\<close>

record transform =
  position :: vec3
  rotX :: real
  rotY :: real
  scaleS :: real

definition renderScale :: "tick_env \<Rightarrow> particle \<Rightarrow> real" where
  "renderScale env item =
     (let s = scale item;
          s = (if state env = ZOOM then s * 0.5 else s);
          s = (if formingText env then s * 0.8 else s)
      in s)"

text \<open>One iteration of the loop of lines 1214 to 1252: the updated entry and its matrix.\<close>

definition updateItem :: "tick_env \<Rightarrow> ptype \<Rightarrow> nat \<Rightarrow> particle \<Rightarrow> particle \<times> transform" where
  "updateItem env ty i item =
     (let target = resolveTarget env ty i item;
          cur = ease env target (nudge env item);
          item' = item\<lparr>currentPos := cur,
                       rotationX := rotationX item + rotSpeedX item,
                       rotationY := rotationY item + rotSpeedY item\<rparr>
      in (item',
          \<lparr>position = currentPos item', rotX = rotationX item', rotY = rotationY item',
           scaleS = renderScale env item\<rparr>))"

fun updateFrom :: "tick_env \<Rightarrow> ptype \<Rightarrow> nat \<Rightarrow> particle list \<Rightarrow> (particle \<times> transform) list" where
  "updateFrom env ty i [] = []"
| "updateFrom env ty i (item # rest) = updateItem env ty i item # updateFrom env ty (Suc i) rest"

text \<open>
  The whole call: without the group's mesh nothing is updated; otherwise every entry is
  updated in index order and its matrix is written at its index.
\<close>

definition updateInstancedSystem ::
  "tick_env \<Rightarrow> bool \<Rightarrow> ptype \<Rightarrow> particle list \<Rightarrow> particle list \<times> transform list" where
  "updateInstancedSystem env hasMesh ty dataArray =
     (if \<not> hasMesh then (dataArray, [])
      else (let r = updateFrom env ty 0 dataArray in (map fst r, map snd r)))"

section \<open>Scene control state\<close>

text \<open>
  The mutable refs of \<open>JewelTreeScene\<close> and the React state of \<open>App\<close> that the handlers
  below read and write. Camera position, group rotation and the pointer geometry of a
  touch (last position, distance and angle) are not part of this state: the lines that
  only move them are left out of the handlers.

  \<open>appState\<close> is the React state written by \<open>setAppState\<close>; \<open>appStateRef\<close> is its
  mirror, refreshed by an effect after React has rendered. \<open>statusLog\<close> lists the
  arguments of every \<open>setStatusText\<close> call, oldest first; \<open>sounds\<close> lists the cues that
  were scheduled on the audio context.
\<close>

datatype InputMode = TouchMode | CameraMode

datatype sound = BellSound | JingleBells | WeWishYou

text \<open>One fragment appended to the local \<open>status\<close> string of \<open>predictWebcam\<close>.\<close>

datatype ai_part =
    PointZoom
  | FistSpin
  | OpenScatter
  | PinchSelect
  | VictoryHold int
  | GoldHold int
  | Tracing

text \<open>
  The status strings, named: \<open>StatusEpic\<close> is the greeting of the epic sequence,
  \<open>StatusAI\<close> is the prefix \<open>AI:\<close> followed by the fragments, \<open>StatusRandomPhoto\<close>
  announces the photo picked by a pinch, \<open>StatusNoPhotos\<close> is the warning that no photo
  has been inserted yet, \<open>StatusSearching\<close> says that no hand is in view, the next
  three are the touch-mode descriptions of the display modes, and \<open>StatusPhotosAdded\<close>
  reports the number of uploaded images.
\<close>

datatype status =
    StatusEpic
  | StatusAI "ai_part list"
  | StatusRandomPhoto
  | StatusNoPhotos
  | StatusSearching
  | StatusTree
  | StatusScatter
  | StatusZoom
  | StatusPhotosAdded nat

record scene =
  appState :: AppState
  appStateRef :: AppState
  statusLog :: "status list"
  blessingCount :: nat
  holdProgress :: real
  soundEnabled :: bool
  hasAudioContext :: bool
  sounds :: "sound list"
  inputMode :: InputMode
  hasMainGroup :: bool
  uploadedImages :: nat
  photoCount :: nat
  zoomTargetIndex :: int
  isGoldMode :: bool
  goldModeTimer :: real
  shakeIntensity :: real
  isEpicSequence :: bool
  epicTimer :: real
  isHoldingStar :: bool
  starHoldStartTime :: int
  hasTriggeredEpic :: bool
  rainbowStarMode :: bool
  repulsionPoint :: "vec3 option"
  touches :: nat
  startTime :: int
  startPositions :: nat
  lastTapTime :: int
  lastPredictionTime :: int
  lastVideoTime :: real
  isPinching :: bool
  victoryTimer :: real
  threeTimer :: real

definition setStatusText :: "status \<Rightarrow> scene \<Rightarrow> scene" where
  "setStatusText s st = st\<lparr>statusLog := statusLog st @ [s]\<rparr>"

definition setAppState :: "AppState \<Rightarrow> scene \<Rightarrow> scene" where
  "setAppState a st = st\<lparr>appState := a\<rparr>"

text \<open>
  The three cue players return early when sound is switched off or no audio context
  could be made; otherwise they schedule their notes.
\<close>

definition playSound :: "sound \<Rightarrow> scene \<Rightarrow> scene" where
  "playSound c st =
     (if \<not> soundEnabled st then st
      else if \<not> hasAudioContext st then st
      else st\<lparr>sounds := sounds st @ [c]\<rparr>)"

definition playBellSound :: "scene \<Rightarrow> scene" where
  "playBellSound = playSound BellSound"

definition playJingleBells :: "scene \<Rightarrow> scene" where
  "playJingleBells = playSound JingleBells"

definition playWeWishYou :: "scene \<Rightarrow> scene" where
  "playWeWishYou = playSound WeWishYou"

subsection \<open>\<open>triggerEpicSequence\<close>\<close>

definition triggerEpicSequence :: "scene \<Rightarrow> scene" where
  "triggerEpicSequence st =
     (if hasTriggeredEpic st then st
      else
        (let st = st\<lparr>hasTriggeredEpic := True, isEpicSequence := True, epicTimer := 0,
                       rainbowStarMode := True\<rparr>;
             st = playWeWishYou st;
             st = st\<lparr>blessingCount := blessingCount st + 1\<rparr>;
             st = st\<lparr>holdProgress := 0\<rparr>;
             st = st\<lparr>shakeIntensity := 3\<rparr>
         in setStatusText StatusEpic st))"

subsection \<open>Gesture classification in \<open>predictWebcam\<close>\<close>

text \<open>
  \<open>dist\<close> and \<open>isExt\<close> over the landmark array of the detected hand; the body reads
  indices up to 20.
\<close>

definition dist :: "vec3 list \<Rightarrow> nat \<Rightarrow> nat \<Rightarrow> real" where
  "dist landmarks i1 i2 = distanceTo (landmarks ! i1) (landmarks ! i2)"

definition isExt :: "vec3 list \<Rightarrow> nat \<Rightarrow> nat \<Rightarrow> bool" where
  "isExt landmarks tip pip \<longleftrightarrow> dist landmarks 0 tip > dist landmarks 0 pip * 1.1"

text \<open>The values the gesture chain reads from the landmarks.\<close>

record hand =
  thumbOpen :: bool
  indexOpen :: bool
  midOpen :: bool
  ringOpen :: bool
  pinkyOpen :: bool
  pinchDist :: real

definition handOf :: "vec3 list \<Rightarrow> hand" where
  "handOf landmarks =
     \<lparr>thumbOpen = isExt landmarks 4 2, indexOpen = isExt landmarks 8 6,
      midOpen = isExt landmarks 12 10, ringOpen = isExt landmarks 16 14,
      pinkyOpen = isExt landmarks 20 18, pinchDist = dist landmarks 4 8\<rparr>"

definition extendedCount :: "hand \<Rightarrow> nat" where
  "extendedCount h =
     (if thumbOpen h then 1 else 0) + (if indexOpen h then 1 else 0)
       + (if midOpen h then 1 else 0) + (if ringOpen h then 1 else 0)
       + (if pinkyOpen h then 1 else 0)"

definition isFist :: "hand \<Rightarrow> bool" where
  "isFist h \<longleftrightarrow> \<not> indexOpen h \<and> \<not> midOpen h \<and> \<not> ringOpen h \<and> \<not> pinkyOpen h"

definition isOpen :: "hand \<Rightarrow> bool" where
  "isOpen h \<longleftrightarrow> extendedCount h = 5"

definition isPointing :: "hand \<Rightarrow> bool" where
  "isPointing h \<longleftrightarrow> indexOpen h \<and> \<not> midOpen h \<and> \<not> ringOpen h \<and> \<not> pinkyOpen h"

definition isVictory :: "hand \<Rightarrow> bool" where
  "isVictory h \<longleftrightarrow> indexOpen h \<and> midOpen h \<and> \<not> ringOpen h \<and> \<not> pinkyOpen h"

definition isThreeFinger :: "hand \<Rightarrow> bool" where
  "isThreeFinger h \<longleftrightarrow> indexOpen h \<and> midOpen h \<and> ringOpen h \<and> \<not> pinkyOpen h"

definition isPinch :: "hand \<Rightarrow> bool" where
  "isPinch h \<longleftrightarrow> pinchDist h < 0.05"

text \<open>
  The branch of the \<open>if\<close>/\<open>else if\<close> chain of lines 1062 to 1116 that runs for a hand.
  The pointing test of line 1052 is a separate \<open>if\<close> in front of the chain.
\<close>

datatype gesture = GFist | GOpen | GPinch | GVictory | GThree | GTracing

definition gestureChain :: "hand \<Rightarrow> gesture" where
  "gestureChain h =
     (if isFist h then GFist
      else if isOpen h then GOpen
      else if isPinch h then GPinch
      else if isVictory h then GVictory
      else if isThreeFinger h then GThree
      else GTracing)"

text \<open>
  The bodies of the branches. Each returns the fragment it appends to \<open>status\<close> and the
  new state. \<open>rnd\<close> is the value \<open>Math.random()\<close> returns in the pinch branch.
\<close>

definition fistBranch :: "scene \<Rightarrow> ai_part \<times> scene" where
  "fistBranch st = (FistSpin, if appStateRef st \<noteq> TREE then setAppState TREE st else st)"

definition openBranch :: "scene \<Rightarrow> ai_part \<times> scene" where
  "openBranch st = (OpenScatter, if appStateRef st \<noteq> SCATTER then setAppState SCATTER st else st)"

definition pinchBranch :: "real \<Rightarrow> scene \<Rightarrow> ai_part \<times> scene" where
  "pinchBranch rnd st =
     (let st =
        (if \<not> isPinching st then
           (if photoCount st > 0 then
              (let st = playBellSound st;
                   randomIndex = \<lfloor>rnd * real (photoCount st)\<rfloor>;
                   st = st\<lparr>zoomTargetIndex := randomIndex\<rparr>;
                   st = setAppState ZOOM st
               in setStatusText StatusRandomPhoto st)
            else setStatusText StatusNoPhotos st)
         else st)
      in (PinchSelect, st\<lparr>isPinching := True\<rparr>))"

definition victoryBranch :: "scene \<Rightarrow> ai_part \<times> scene" where
  "victoryBranch st =
     (let part = VictoryHold \<lfloor>victoryTimer st\<rfloor>;
          st = st\<lparr>victoryTimer := fadd (victoryTimer st) tickStep\<rparr>
      in (part,
          if victoryTimer st > 2 \<and> \<not> isEpicSequence st
          then (triggerEpicSequence st)\<lparr>victoryTimer := 0\<rparr>
          else st))"

definition threeBranch :: "scene \<Rightarrow> ai_part \<times> scene" where
  "threeBranch st =
     (let part = GoldHold \<lfloor>threeTimer st\<rfloor>;
          st = st\<lparr>threeTimer := fadd (threeTimer st) tickStep\<rparr>
      in (part,
          if threeTimer st > 3
          then (playJingleBells (st\<lparr>isGoldMode := True, goldModeTimer := 8\<rparr>))\<lparr>threeTimer := 0\<rparr>
          else st))"

definition tracingBranch :: "scene \<Rightarrow> ai_part \<times> scene" where
  "tracingBranch st = (Tracing, st\<lparr>isPinching := False, victoryTimer := 0, threeTimer := 0\<rparr>)"

text \<open>Lines 1050 to 1118 for one detected hand.\<close>

definition classifyHand :: "hand \<Rightarrow> real \<Rightarrow> scene \<Rightarrow> scene" where
  "classifyHand h rnd st =
     (let pointing = (if isPointing h then [PointZoom] else []);
          (part, st) =
            (case gestureChain h of
               GFist \<Rightarrow> fistBranch st
             | GOpen \<Rightarrow> openBranch st
             | GPinch \<Rightarrow> pinchBranch rnd st
             | GVictory \<Rightarrow> victoryBranch st
             | GThree \<Rightarrow> threeBranch st
             | GTracing \<Rightarrow> tracingBranch st)
      in setStatusText (StatusAI (pointing @ [part])) st)"

text \<open>
  What one call of \<open>predictWebcam\<close> gets from outside: whether the landmarker and a video
  with data are there, the clock, the video's time, and what the detection and the
  skeleton canvas gave. A detection that throws, or a landmark array too short for the
  indices the body reads, ends in the empty \<open>catch\<close>.
\<close>

datatype detection = DetectThrows | NoCanvas | NoHand | Hand "vec3 list"

record webcam_frame =
  ready :: bool
  now :: int
  videoTime :: real
  detected :: detection
  rnd :: real

definition predictWebcam :: "webcam_frame \<Rightarrow> scene \<Rightarrow> scene" where
  "predictWebcam fr st =
     (if \<not> ready fr \<or> inputMode st \<noteq> CameraMode then st
      else if now fr - lastPredictionTime st < 100 then st
      else
        (let st = st\<lparr>lastPredictionTime := now fr\<rparr> in
         if videoTime fr = lastVideoTime st then st
         else
           (let st = st\<lparr>lastVideoTime := videoTime fr\<rparr> in
            case detected fr of
              DetectThrows \<Rightarrow> st
            | NoCanvas \<Rightarrow> st
            | NoHand \<Rightarrow> setStatusText StatusSearching st
            | Hand landmarks \<Rightarrow>
                if length landmarks < 21 then st
                else classifyHand (handOf landmarks) (rnd fr) st)))"

subsection \<open>\<open>handleTouch\<close> and \<open>handlePhotoClick\<close>\<close>

text \<open>
  What a pointer event carries: its kind, whether it is a touch event and how many
  touches it lists (a mouse event counts one pointer while the left button is down), the
  clock, and what the ray casts of the handler found: whether the ray hits the star, the
  point of the interaction plane under the pointer (when container and camera exist),
  and the index of the photo card that \<open>handlePhotoClick\<close> finds under the tap.
\<close>

datatype touch_kind = TStart | TMove | TEnd

record touch_event =
  kind :: touch_kind
  isTouch :: bool
  touchLength :: nat
  mouseDown :: bool
  tnow :: int
  hitStar :: bool
  planePoint :: "vec3 option"
  photoHit :: "nat option"

definition touchCount :: "touch_event \<Rightarrow> nat" where
  "touchCount e = (if isTouch e then touchLength e else if mouseDown e then 1 else 0)"

definition handlePhotoClick :: "nat option \<Rightarrow> scene \<Rightarrow> scene" where
  "handlePhotoClick hit st =
     (if \<not> hasMainGroup st then st
      else case hit of
             None \<Rightarrow> st
           | Some index \<Rightarrow> setAppState ZOOM (st\<lparr>zoomTargetIndex := int index\<rparr>))"

definition toggleFormation :: "AppState \<Rightarrow> AppState" where
  "toggleFormation prev = (if prev = TREE then SCATTER else TREE)"

definition touchStart :: "touch_event \<Rightarrow> scene \<Rightarrow> scene" where
  "touchStart e st =
     (let st = st\<lparr>startTime := tnow e,
                   startPositions := (if isTouch e then touchLength e else 1)\<rparr>
      in if touchCount e = 1 \<and> hitStar e
         then st\<lparr>isHoldingStar := True, starHoldStartTime := tnow e\<rparr>
         else st)"

definition touchMove :: "touch_event \<Rightarrow> scene \<Rightarrow> scene" where
  "touchMove e st =
     (if touchCount e = 1 then
        (case planePoint e of
           None \<Rightarrow> st
         | Some p \<Rightarrow> st\<lparr>repulsionPoint := Some p\<rparr>)
      else st)"

definition touchEnd :: "touch_event \<Rightarrow> scene \<Rightarrow> scene" where
  "touchEnd e st =
     (let st = st\<lparr>repulsionPoint := None, isHoldingStar := False, holdProgress := 0\<rparr>;
          st =
            (if tnow e - startTime st < 300 then
               (let lastCount = startPositions st in
                if lastCount = 1 then
                  (let st =
                     (if tnow e - lastTapTime st < 300 then st\<lparr>shakeIntensity := 5\<rparr>
                      else handlePhotoClick (photoHit e) (playBellSound st))
                   in st\<lparr>lastTapTime := tnow e\<rparr>)
                else if lastCount = 2 then setAppState (toggleFormation (appState st)) st
                else st)
             else st)
      in if touchCount e = 5
         then playJingleBells (st\<lparr>isGoldMode := True, goldModeTimer := 8\<rparr>)
         else st)"

definition handleTouch :: "touch_event \<Rightarrow> scene \<Rightarrow> scene" where
  "handleTouch e st =
     (if inputMode st = CameraMode then st
      else
        (let st = st\<lparr>touches := touchCount e\<rparr> in
         case kind e of
           TStart \<Rightarrow> touchStart e st
         | TMove \<Rightarrow> touchMove e st
         | TEnd \<Rightarrow> touchEnd e st))"

subsection \<open>The control part of \<open>animate\<close>\<close>

text \<open>
  One frame: the gesture prediction, the star hold of lines 1523 to 1532, the epic timer
  of lines 1534 to 1554 and the decay of the shake. \<open>clock\<close> is \<open>Date.now()\<close> in the hold
  block. Drawing, group rotation and fireworks are left out.
\<close>

record tick =
  frame :: webcam_frame
  clock :: int

definition starHold :: "int \<Rightarrow> scene \<Rightarrow> scene" where
  "starHold clk st =
     (if isHoldingStar st \<and> \<not> isEpicSequence st then
        (if inputMode st = TouchMode \<and> starHoldStartTime st > 0 then
           (let holdTime = clk - starHoldStartTime st;
                progress = min (real_of_int holdTime / 3000) 1;
                st = st\<lparr>holdProgress := progress\<rparr>
            in if progress \<ge> 1 \<and> \<not> hasTriggeredEpic st then triggerEpicSequence st else st)
         else st)
      else st)"

definition epicStep :: "scene \<Rightarrow> scene" where
  "epicStep st =
     (if isEpicSequence st then
        (let st = st\<lparr>epicTimer := fadd (epicTimer st) frameStep\<rparr>;
             t = epicTimer st
         in if t > 18 then setAppState TREE (st\<lparr>isEpicSequence := False\<rparr>) else st)
      else st)"

definition shakeStep :: "scene \<Rightarrow> scene" where
  "shakeStep st =
     (if shakeIntensity st > 0 then st\<lparr>shakeIntensity := shakeIntensity st * 0.9\<rparr> else st)"

definition animate :: "tick \<Rightarrow> scene \<Rightarrow> scene" where
  "animate tk st =
     (let st = predictWebcam (frame tk) st in
      if \<not> hasMainGroup st then st
      else shakeStep (epicStep (starHold (clock tk) st)))"

subsection \<open>Executions\<close>

text \<open>
  The effect of lines 345 to 354 copies the React state into its mirror after a render
  and, in touch mode, reports the display mode. The overlay's close buttons call
  \<open>setAppState(TREE)\<close>; its toggles change the sound setting and the input mode. A loaded
  image is appended to \<open>uploadedImages\<close>, and the effect of lines 356 to 363 then mounts
  a photo card for every image that has none yet.
\<close>

definition commitEffect :: "scene \<Rightarrow> scene" where
  "commitEffect st =
     (let st = st\<lparr>appStateRef := appState st\<rparr> in
      if inputMode st = TouchMode then
        setStatusText (case appState st of TREE \<Rightarrow> StatusTree | SCATTER \<Rightarrow> StatusScatter
                        | ZOOM \<Rightarrow> StatusZoom) st
      else st)"

definition addPhotoMesh :: "scene \<Rightarrow> scene" where
  "addPhotoMesh st = (if \<not> hasMainGroup st then st else st\<lparr>photoCount := photoCount st + 1\<rparr>)"

definition photoEffect :: "scene \<Rightarrow> scene" where
  "photoEffect st =
     (if \<not> hasMainGroup st then st
      else if uploadedImages st > photoCount st then
        setStatusText (StatusPhotosAdded (uploadedImages st))
          ((addPhotoMesh ^^ (uploadedImages st - photoCount st)) st)
      else st)"

datatype event =
    Animate tick
  | Pointer touch_event
  | Commit
  | CloseFocus
  | PhotoLoaded
  | SetSound bool
  | SetInputMode InputMode

fun step :: "event \<Rightarrow> scene \<Rightarrow> scene" where
  "step (Animate tk) st = animate tk st"
| "step (Pointer e) st = handleTouch e st"
| "step Commit st = commitEffect st"
| "step CloseFocus st = setAppState TREE st"
| "step PhotoLoaded st = photoEffect (st\<lparr>uploadedImages := uploadedImages st + 1\<rparr>)"
| "step (SetSound b) st = st\<lparr>soundEnabled := b\<rparr>"
| "step (SetInputMode m) st = st\<lparr>inputMode := m\<rparr>"

fun run :: "event list \<Rightarrow> scene \<Rightarrow> scene" where
  "run [] st = st"
| "run (e # es) st = run es (step e st)"

text \<open>A run of classification ticks on detected hands, each with its random draw.\<close>

fun classifyAll :: "(hand \<times> real) list \<Rightarrow> scene \<Rightarrow> scene" where
  "classifyAll [] st = st"
| "classifyAll (hr # rest) st = classifyAll rest (classifyHand (fst hr) (snd hr) st)"

text \<open>
  A run of animation frames. The program calls \<open>predictWebcam\<close> from \<open>animate\<close> only, so
  this is how a sequence of classification calls comes about.
\<close>

fun animateAll :: "tick list \<Rightarrow> scene \<Rightarrow> scene" where
  "animateAll [] st = st"
| "animateAll (tk # rest) st = animateAll rest (animate tk st)"

text \<open>The refs and React state as the component creates them.\<close>

definition initialScene :: scene where
  "initialScene =
     \<lparr>appState = TREE, appStateRef = TREE, statusLog = [], blessingCount = 0,
      holdProgress = 0, soundEnabled = True, hasAudioContext = True, sounds = [],
      inputMode = TouchMode, hasMainGroup = True, uploadedImages = 0, photoCount = 0, zoomTargetIndex = - 1,
      isGoldMode = False, goldModeTimer = 0, shakeIntensity = 0, isEpicSequence = False,
      epicTimer = 0, isHoldingStar = False, starHoldStartTime = 0, hasTriggeredEpic = False,
      rainbowStarMode = False, repulsionPoint = None, touches = 0, startTime = 0,
      startPositions = 0, lastTapTime = 0, lastPredictionTime = 0, lastVideoTime = - 1,
      isPinching = False, victoryTimer = 0, threeTimer = 0\<rparr>"

section \<open>Notions used by the properties\<close>

text \<open>
  The latch covers the active flag: whenever the sequence is running, it has been
  triggered. This holds when the scene is created and every handler keeps it.
\<close>

definition latchInv :: "scene \<Rightarrow> bool" where
  "latchInv st \<longleftrightarrow> (isEpicSequence st \<longrightarrow> hasTriggeredEpic st)"

text \<open>
  How often the cue of the epic sequence has been scheduled, how many triggers can still
  take effect, and the part of the state that a trigger spends.
\<close>

definition cueCount :: "scene \<Rightarrow> nat" where
  "cueCount st = count_list (sounds st) WeWishYou"

definition epicBudget :: "scene \<Rightarrow> nat" where
  "epicBudget st = (if hasTriggeredEpic st then 0 else 1)"

definition epicCore :: "scene \<Rightarrow> nat \<times> bool \<times> nat" where
  "epicCore st = (blessingCount st, hasTriggeredEpic st, cueCount st)"

definition spends :: "scene \<Rightarrow> scene \<Rightarrow> bool" where
  "spends s s' \<longleftrightarrow>
     blessingCount s' + epicBudget s' = blessingCount s + epicBudget s
     \<and> cueCount s' + epicBudget s' \<le> cueCount s + epicBudget s
     \<and> cueCount s \<le> cueCount s'
     \<and> epicBudget s' \<le> epicBudget s"

text \<open>A sequence of classified gestures that alternates between victory and tracing.\<close>

fun alternating :: "gesture list \<Rightarrow> bool" where
  "alternating [] = True"
| "alternating [g] = (g = GVictory \<or> g = GTracing)"
| "alternating (g # g' # rest) =
     (((g = GVictory \<and> g' = GTracing) \<or> (g = GTracing \<and> g' = GVictory))
      \<and> alternating (g' # rest))"






text \<open>
  The values the timers take: the victory timer after \<open>n\<close> increments from zero, and
  the timer of the epic sequence after \<open>n\<close> frames.
\<close>

primrec victorySum :: "nat \<Rightarrow> real" where
  "victorySum 0 = 0"
| "victorySum (Suc n) = fadd (victorySum n) tickStep"

primrec frameSum :: "nat \<Rightarrow> real" where
  "frameSum 0 = 0"
| "frameSum (Suc n) = fadd (frameSum n) frameStep"

text \<open>
  For computing with the timers: a timer value as an integer number of units of
  \<open>2^-58\<close>, rounding of such an integer to 53 significant bits, and the two sums on
  integers.
\<close>

definition units :: "int \<Rightarrow> real" where
  "units n = of_int n * 2 powi (- 58)"

definition roundSig :: "int \<Rightarrow> int" where
  "roundSig n =
     (let b = bitlen n in
      if b \<le> 53 then n
      else (let s = nat (b - 53); q = n div 2 ^ s; r = n mod 2 ^ s; h = 2 ^ (s - 1)
            in (if r < h then q else if r > h then q + 1 else if even q then q else q + 1)
               * 2 ^ s))"

primrec victorySumI :: "nat \<Rightarrow> int" where
  "victorySumI 0 = 0"
| "victorySumI (Suc k) = roundSig (victorySumI k + 28823037615171176)"

primrec frameSumI :: "nat \<Rightarrow> int" where
  "frameSumI 0 = 0"
| "frameSumI (Suc k) = roundSig (frameSumI k + 4611686018427388)"

text \<open>The timer of the epic sequence holds one of the sums of \<open>frameStep\<close>.\<close>

definition timerInv :: "scene \<Rightarrow> bool" where
  "timerInv st \<longleftrightarrow> (\<exists>k. epicTimer st = frameSum k)"

text \<open>What the victory branch reads and writes, and the state change of the branch.\<close>

definition holdCore :: "scene \<Rightarrow> real \<times> bool \<times> bool \<times> nat" where
  "holdCore st = (victoryTimer st, isEpicSequence st, hasTriggeredEpic st, blessingCount st)"

definition victoryTick :: "scene \<Rightarrow> scene" where
  "victoryTick st = snd (victoryBranch st)"

section \<open>Concrete scenes and inputs\<close>

definition envRepel :: tick_env where
  "envRepel = \<lparr>state = TREE, isEpic = False, epicTime = 0, repelPos = Some (V3 1 0 0),
     toLocal = id, textTargets = None\<rparr>"

definition envCalm :: tick_env where
  "envCalm = \<lparr>state = SCATTER, isEpic = False, epicTime = 0, repelPos = None,
     toLocal = id, textTargets = None\<rparr>"

definition glyphs :: text_targets where
  "glyphs = \<lparr>gold = [V3 1 2 25, V3 3 4 25], silver = [V3 5 6 25]\<rparr>"

definition envText :: "real \<Rightarrow> text_targets option \<Rightarrow> tick_env" where
  "envText t tt = \<lparr>state = TREE, isEpic = True, epicTime = t, repelPos = None,
     toLocal = id, textTargets = tt\<rparr>"

definition atOrigin :: particle where
  "atOrigin = \<lparr>treePos = Some (V3 0 0 0), scatterPos = Some (V3 30 0 0), currentPos = V3 0 0 0,
     scale = 1, rotSpeedX = 0, rotSpeedY = 0, rotationX = 0, rotationY = 0\<rparr>"

definition noTargets :: particle where
  "noTargets = \<lparr>treePos = None, scatterPos = None, currentPos = V3 7 8 9,
     scale = 1, rotSpeedX = 0, rotSpeedY = 0, rotationX = 0, rotationY = 0\<rparr>"

text \<open>
  The scene after the switch to camera mode, and the same scene 312 frames into the epic
  sequence.
\<close>

definition cameraScene :: scene where
  "cameraScene = initialScene\<lparr>inputMode := CameraMode\<rparr>"

definition epicRunning :: scene where
  "epicRunning = cameraScene\<lparr>blessingCount := 1, isEpicSequence := True,
     epicTimer := frameSum 312, hasTriggeredEpic := True, rainbowStarMode := True\<rparr>"


definition withPhotos :: scene where
  "withPhotos = cameraScene\<lparr>uploadedImages := 3, photoCount := 3\<rparr>"

definition openHand :: hand where
  "openHand = \<lparr>thumbOpen = True, indexOpen = True, midOpen = True, ringOpen = True,
     pinkyOpen = True, pinchDist = 0.2\<rparr>"

definition fistHand :: hand where
  "fistHand = \<lparr>thumbOpen = False, indexOpen = False, midOpen = False, ringOpen = False,
     pinkyOpen = False, pinchDist = 0.2\<rparr>"

definition victoryHand :: hand where
  "victoryHand = \<lparr>thumbOpen = False, indexOpen = True, midOpen = True, ringOpen = False,
     pinkyOpen = False, pinchDist = 0.2\<rparr>"

definition pinchHand :: hand where
  "pinchHand = \<lparr>thumbOpen = True, indexOpen = True, midOpen = True, ringOpen = False,
     pinkyOpen = False, pinchDist = 0.01\<rparr>"

definition tracingHand :: hand where
  "tracingHand = \<lparr>thumbOpen = False, indexOpen = False, midOpen = False, ringOpen = False,
     pinkyOpen = True, pinchDist = 0.2\<rparr>"



definition noFrame :: webcam_frame where
  "noFrame = \<lparr>ready = False, now = 0, videoTime = 0, detected = NoHand, rnd = 0\<rparr>"

definition idleTick :: "int \<Rightarrow> tick" where
  "idleTick c = \<lparr>frame = noFrame, clock = c\<rparr>"



definition starPress :: touch_event where
  "starPress = \<lparr>kind = TStart, isTouch = True, touchLength = 1, mouseDown = False,
     tnow = 1000, hitStar = True, planePoint = None, photoHit = None\<rparr>"


section \<open>Facts about the double arithmetic\<close>

lemma binade_bounds:
  assumes "0 < x"
  shows "2 powi binade x \<le> x \<and> x < 2 powi (binade x + 1)"
proof (cases "1 \<le> x")
  case True
  define n where "n = nat \<lfloor>x\<rfloor>"
  have n: "0 < n" "real n \<le> x" "x < real n + 1"
    using True by (simp_all add: n_def)
  from floorlog_bounds[OF n(1), of 2]
  have b: "2 ^ (floorlog 2 n - 1) \<le> n" "n < 2 ^ floorlog 2 n" by simp_all
  have pos: "0 < floorlog 2 n" using n(1) by (simp add: floorlog_def)
  have e: "binade x = int (floorlog 2 n) - 1"
    using True by (simp add: binade_def n_def)
  have e1: "binade x = int (floorlog 2 n - 1)" using e pos by simp
  have "(2::real) powi binade x = 2 ^ (floorlog 2 n - 1)"
    unfolding e1 by simp
  also have "\<dots> \<le> real n" using b(1) by (metis of_nat_le_iff of_nat_numeral of_nat_power)
  finally have lo: "2 powi binade x \<le> x" using n(2) by simp
  have "binade x + 1 = int (floorlog 2 n)" using e by simp
  then have "(2::real) powi (binade x + 1) = 2 ^ floorlog 2 n" by simp
  moreover have "real n + 1 \<le> 2 ^ floorlog 2 n"
  proof -
    from b(2) have "n + 1 \<le> 2 ^ floorlog 2 n" by simp
    then have "real (n + 1) \<le> real (2 ^ floorlog 2 n)" by (rule of_nat_mono)
    then show ?thesis by simp
  qed
  ultimately have "x < 2 powi (binade x + 1)" using n(3) by simp
  with lo show ?thesis by simp
next
  case False
  define y where "y = 1 / x"
  have y: "1 < y" "x = 1 / y" "0 < y" using False assms by (simp_all add: y_def)
  define m where "m = nat (\<lceil>y\<rceil> - 1)"
  have c: "2 \<le> \<lceil>y\<rceil>" using y(1) by linarith
  have m: "0 < m" "real m < y" "y \<le> real m + 1"
    using c by (simp_all add: m_def) linarith+
  from floorlog_bounds[OF m(1), of 2]
  have b: "2 ^ (floorlog 2 m - 1) \<le> m" "m < 2 ^ floorlog 2 m" by simp_all
  have pos: "0 < floorlog 2 m" using m(1) by (simp add: floorlog_def)
  have e: "binade x = - int (floorlog 2 m)"
    using False by (simp add: binade_def m_def y_def)
  have up: "y \<le> 2 ^ floorlog 2 m"
  proof -
    from b(2) have "m + 1 \<le> 2 ^ floorlog 2 m" by simp
    then have "real (m + 1) \<le> real (2 ^ floorlog 2 m)" by (rule of_nat_mono)
    then show ?thesis using m(3) by simp
  qed
  have low: "2 ^ (floorlog 2 m - 1) < y"
  proof -
    have "(2::real) ^ (floorlog 2 m - 1) \<le> real m"
      using b(1) by (metis of_nat_le_iff of_nat_numeral of_nat_power)
    then show ?thesis using m(2) by linarith
  qed
  have "(2::real) powi binade x = 1 / 2 ^ floorlog 2 m"
    unfolding e by (simp add: power_int_minus field_simps)
  also have "\<dots> \<le> 1 / y" using up y(3) by (simp add: frac_le)
  finally have lo: "2 powi binade x \<le> x" using y(2) by simp
  have "binade x + 1 = - int (floorlog 2 m - 1)" using e pos by simp
  then have "(2::real) powi (binade x + 1) = 1 / 2 ^ (floorlog 2 m - 1)"
    by (simp add: power_int_minus field_simps)
  moreover have "1 / y < 1 / 2 ^ (floorlog 2 m - 1)"
    using low by (simp add: frac_less2)
  ultimately have "x < 2 powi (binade x + 1)" using y(2) by simp
  with lo show ?thesis by simp
qed

lemma binade_unique:
  assumes "0 < x" and "2 powi e \<le> x" and "x < 2 powi (e + 1)"
  shows "binade x = e"
proof -
  from binade_bounds[OF assms(1)]
  have b: "2 powi binade x \<le> x" "x < 2 powi (binade x + 1)" by simp_all
  have "(2::real) powi e < 2 powi (binade x + 1)" using assms(2) b(2) by simp
  then have 1: "e < binade x + 1"
    using power_int_increasing[of "binade x + 1" e "2::real"] by force
  have "(2::real) powi binade x < 2 powi (e + 1)" using assms(3) b(1) by simp
  then have 2: "binade x < e + 1"
    using power_int_increasing[of "e + 1" "binade x" "2::real"] by force
  from 1 2 show ?thesis by simp
qed


lemma roundHalfEven_of_int: "roundHalfEven (of_int N) = N"
  by (simp add: roundHalfEven_def)

lemma roundHalfEven_div:
  assumes "0 < s"
  shows "roundHalfEven (of_int n / 2 ^ s) =
     (let q = n div 2 ^ s; r = n mod 2 ^ s; h = 2 ^ (s - 1)
      in if r < h then q else if r > h then q + 1 else if even q then q else q + 1)"
proof -
  define q where "q = n div 2 ^ s"
  define r where "r = n mod 2 ^ s"
  define h :: int where "h = 2 ^ (s - 1)"
  have p: "(2::int) ^ s = 2 * h"
    using assms by (simp add: h_def power_eq_if)
  have fl: "\<lfloor>real_of_int n / 2 ^ s\<rfloor> = q"
    using floor_divide_of_int_eq[of n "2 ^ s", where ?'a = real] by (simp add: q_def)
  have n: "n = q * 2 ^ s + r"
    unfolding q_def r_def by (rule div_mult_mod_eq[symmetric])
  have "real_of_int n = real_of_int q * 2 ^ s + real_of_int r"
    by (subst n) simp
  then have d: "real_of_int n / 2 ^ s - real_of_int q = real_of_int r / 2 ^ s"
    by (simp add: field_simps)
  have rp: "(2::real) ^ s = 2 * real_of_int h"
    using p by (metis of_int_mult of_int_numeral of_int_power)
  have hpos: "0 < real_of_int h" by (simp add: h_def)
  have lt: "real_of_int r / 2 ^ s < 1 / 2 \<longleftrightarrow> r < h"
    unfolding rp using hpos by (simp add: field_simps)
  have gt: "real_of_int r / 2 ^ s > 1 / 2 \<longleftrightarrow> r > h"
    unfolding rp using hpos by (simp add: field_simps)
  show ?thesis
    unfolding roundHalfEven_def Let_def fl d lt gt q_def[symmetric] r_def[symmetric] h_def[symmetric]
    by simp
qed

lemma toDouble_scaled:
  assumes "0 < n"
  shows "toDouble (of_int n * 2 powi k) = of_int (roundSig n) * 2 powi k"
proof -
  define y :: real where "y = of_int n * 2 powi k"
  define b where "b = bitlen n"
  have ypos: "0 < y" using assms by (simp add: y_def)
  from bitlen_bounds[OF assms]
  have bb: "2 ^ nat (b - 1) \<le> n" "n < 2 ^ nat b" by (simp_all add: b_def)
  have b1: "1 \<le> b"
  proof (rule ccontr)
    assume "\<not> 1 \<le> b"
    then have "nat b = 0" by simp
    with bb(2) assms show False by simp
  qed
  have lo: "2 powi (b - 1 + k) \<le> y"
  proof -
    have "(2::real) powi (b - 1 + k) = 2 powi (b - 1) * 2 powi k"
      by (simp add: power_int_add)
    also have "(2::real) powi (b - 1) = 2 ^ nat (b - 1)"
      using b1 by (simp add: power_int_def)
    also have "(2::real) ^ nat (b - 1) \<le> of_int n"
      using bb(1) by (metis of_int_le_iff of_int_numeral of_int_power)
    finally show ?thesis by (simp add: y_def)
  qed
  have hi: "y < 2 powi (b - 1 + k + 1)"
  proof -
    have "real_of_int n < 2 ^ nat b"
      using bb(2) by (metis of_int_less_iff of_int_numeral of_int_power)
    also have "(2::real) ^ nat b = 2 powi b"
      using b1 by (simp add: power_int_def)
    finally have "y < 2 powi b * 2 powi k"
      by (simp add: y_def)
    then show ?thesis by (simp add: power_int_add)
  qed
  have e: "binade y = b - 1 + k"
    by (rule binade_unique[OF ypos lo hi])
  define u :: real where "u = 2 powi (b - 53 + k)"
  have "binade y - 52 = b - 53 + k"
    using e by simp
  then have u: "2 powi (binade y - 52) = u"
    by (simp only: u_def)
  have upos: "0 < u" by (simp add: u_def)
  have td: "toDouble y = of_int (roundHalfEven (y / u)) * u"
    using ypos by (simp add: toDouble_def u Let_def)
  have yu: "y / u = of_int n * 2 powi (53 - b)"
  proof -
    have "(2::real) powi k = 2 powi (53 - b) * 2 powi (b - 53 + k)"
      by (simp flip: power_int_add)
    then show ?thesis using upos by (simp add: y_def u_def)
  qed
  show ?thesis
  proof (cases "b \<le> 53")
    case True
    have "(2::real) powi (53 - b) = of_int (2 ^ nat (53 - b))"
      using True by (simp add: power_int_def)
    then have "y / u = of_int (n * 2 ^ nat (53 - b))" by (simp add: yu)
    then have "roundHalfEven (y / u) = n * 2 ^ nat (53 - b)"
      by (simp only: roundHalfEven_of_int)
    then have "toDouble y = of_int n * (2 powi (53 - b) * 2 powi (b - 53 + k))"
      using True by (simp add: td u_def power_int_def)
    also have "(2::real) powi (53 - b) * 2 powi (b - 53 + k) = 2 powi k"
      by (simp flip: power_int_add)
    finally show ?thesis using True by (simp add: y_def roundSig_def b_def)
  next
    case False
    define s where "s = nat (b - 53)"
    have s: "0 < s" "int s = b - 53" using False by (simp_all add: s_def)
    have "(2::real) powi (53 - b) = 1 / 2 ^ s"
      using False by (simp add: power_int_def s_def field_simps)
    then have "y / u = of_int n / 2 ^ s" by (simp add: yu)
    then have r: "roundHalfEven (y / u) =
       (let q = n div 2 ^ s; r = n mod 2 ^ s; h = 2 ^ (s - 1)
        in if r < h then q else if r > h then q + 1 else if even q then q else q + 1)"
      using roundHalfEven_div[OF s(1), of n] by simp
    have us: "u = 2 ^ s * 2 powi k"
    proof -
      have "u = 2 powi (int s + k)" using s(2) by (simp add: u_def)
      then show ?thesis by (simp add: power_int_add)
    qed
    have rs: "roundSig n = roundHalfEven (y / u) * 2 ^ s"
      using False by (simp add: roundSig_def b_def[symmetric] s_def[symmetric] r Let_def)
    show ?thesis
      unfolding y_def[symmetric] td rs us by simp
  qed
qed

lemma tickStep_units: "tickStep = units 28823037615171176"
proof -
  have "toDouble (1 / 10) = 3602879701896397 / 36028797018963968"
    by code_simp
  then show ?thesis by (simp add: tickStep_def units_def power_int_minus)
qed

lemma frameStep_units: "frameStep = units 4611686018427388"
proof -
  have "toDouble (16 / 1000) = 1152921504606847 / 72057594037927936"
    by code_simp
  then show ?thesis by (simp add: frameStep_def units_def power_int_minus)
qed

lemma roundSig_nonneg: "0 \<le> n \<Longrightarrow> 0 \<le> roundSig n"
  by (simp add: roundSig_def Let_def pos_imp_zdiv_nonneg_iff)

lemma fadd_units:
  assumes "0 < a + b"
  shows "fadd (units a) (units b) = units (roundSig (a + b))"
proof -
  have e: "real_of_int a * 2 powi (- 58) + real_of_int b * 2 powi (- 58)
      = real_of_int (a + b) * 2 powi (- 58)"
    by (simp add: algebra_simps)
  show ?thesis
    unfolding fadd_def units_def e by (rule toDouble_scaled[OF assms])
qed

lemma victorySumI_nonneg: "0 \<le> victorySumI k"
  by (induction k) (simp_all add: roundSig_nonneg)

lemma frameSumI_nonneg: "0 \<le> frameSumI k"
  by (induction k) (simp_all add: roundSig_nonneg)

lemma victorySum_units: "victorySum k = units (victorySumI k)"
proof (induction k)
  case 0
  show ?case by (simp add: units_def)
next
  case (Suc k)
  have "0 < victorySumI k + 28823037615171176"
    using victorySumI_nonneg[of k] by simp
  then show ?case
    by (simp add: Suc tickStep_units fadd_units)
qed

lemma frameSum_units: "frameSum k = units (frameSumI k)"
proof (induction k)
  case 0
  show ?case by (simp add: units_def)
next
  case (Suc k)
  have "0 < frameSumI k + 4611686018427388"
    using frameSumI_nonneg[of k] by simp
  then show ?case
    by (simp add: Suc frameStep_units fadd_units)
qed

lemma units_less: "units a < units b \<longleftrightarrow> a < b"
  by (simp add: units_def)

lemma units_le: "units a \<le> units b \<longleftrightarrow> a \<le> b"
  by (simp add: units_def)

lemma units_eq: "units a = units b \<longleftrightarrow> a = b"
  by (simp add: units_def)

lemma two_units: "2 = units 576460752303423488"
  by (simp add: units_def power_int_minus)

lemma four_units: "4 = units 1152921504606846976"
  by (simp add: units_def power_int_minus)

lemma victory_below: "list_all (\<lambda>k. victorySumI k \<le> 576460752303423488) [0..<20]"
  by code_simp

lemma victory_cross: "victorySumI 20 > 576460752303423488"
  by code_simp

lemma frame_249: "frameSumI 249 < 1152921504606846976"
  by code_simp

lemma frame_250: "frameSumI 250 = 1152921504606847744"
  by code_simp


lemma roundSig_ge_trunc:
  assumes "53 < bitlen m"
  shows "(m div 2 ^ nat (bitlen m - 53)) * 2 ^ nat (bitlen m - 53) \<le> roundSig m"
  using assms by (simp add: roundSig_def Let_def)

lemma roundSig_keep:
  assumes "1152921504606847232 \<le> m"
  shows "1152921504606847232 \<le> roundSig m"
proof -
  have mpos: "0 < m" using assms by simp
  define b where "b = bitlen m"
  define s where "s = nat (b - 53)"
  have b61: "61 \<le> b"
    unfolding b_def using assms by (subst bitlen_ge_iff_power) simp
  have tr: "(m div 2 ^ s) * 2 ^ s \<le> roundSig m"
    unfolding s_def b_def using b61 by (intro roundSig_ge_trunc) (simp add: b_def)
  show ?thesis
  proof (cases "b = 61")
    case True
    then have s8: "s = 8" by (simp add: s_def)
    have "1152921504606847232 div 256 \<le> m div (256::int)"
      using assms by (intro zdiv_mono1) simp_all
    then have "4503599627370497 \<le> m div 256" by simp
    then have "4503599627370497 * 256 \<le> (m div 256) * 256" by simp
    with tr show ?thesis by (simp add: s8)
  next
    case False
    with b61 have b62: "62 \<le> b" by simp
    then have s9: "9 \<le> s" "nat (b - 1) = 52 + s" by (simp_all add: s_def)
    from bitlen_bounds[OF mpos] have "(2::int) ^ (52 + s) \<le> m"
      by (simp add: b_def[symmetric] s9(2))
    then have "(2 ^ 52 * 2 ^ s) div 2 ^ s \<le> m div (2::int) ^ s"
      by (intro zdiv_mono1) (simp_all add: power_add)
    then have "(2::int) ^ 52 \<le> m div 2 ^ s" by simp
    then have a: "(2::int) ^ 52 * 2 ^ s \<le> (m div 2 ^ s) * 2 ^ s"
      by (intro mult_right_mono) simp_all
    have "(2::int) ^ 61 \<le> 2 ^ (52 + s)"
      using s9(1) by (intro power_increasing) simp_all
    then have c: "(2::int) ^ 61 \<le> 2 ^ 52 * 2 ^ s"
      by (simp only: power_add)
    have d: "(1152921504606847232::int) \<le> 2 ^ 61" by simp
    from d c a tr have "1152921504606847232 \<le> roundSig m"
      by (meson order_trans)
    then show ?thesis .
  qed
qed

lemma frameSumI_past_four:
  "250 \<le> k \<Longrightarrow> 1152921504606847232 \<le> frameSumI k"
proof (induction k)
  case 0
  then show ?case by simp
next
  case (Suc k)
  show ?case
  proof (cases "Suc k = 250")
    case True
    then show ?thesis using frame_250 by simp
  next
    case False
    with Suc.prems have "250 \<le> k" by simp
    then have "1152921504606847232 \<le> frameSumI k" by (rule Suc.IH)
    then have "1152921504606847232 \<le> frameSumI k + 4611686018427388" by simp
    then show ?thesis by (simp add: roundSig_keep)
  qed
qed

lemma frameSumI_stays:
  "1152921504606846976 \<le> frameSumI k \<Longrightarrow> 1152921504606846976 \<le> frameSumI (k + j)"
proof (induction j)
  case 0
  then show ?case by simp
next
  case (Suc j)
  then have "1152921504606847232 \<le> frameSumI (k + j) + 4611686018427388" by simp
  then have "1152921504606847232 \<le> roundSig (frameSumI (k + j) + 4611686018427388)"
    by (rule roundSig_keep)
  then show ?case by simp
qed

lemma frameSumI_before_four:
  assumes "k < 250"
  shows "frameSumI k < 1152921504606846976"
proof (rule ccontr)
  assume "\<not> frameSumI k < 1152921504606846976"
  then have "1152921504606846976 \<le> frameSumI k" by simp
  from frameSumI_stays[OF this, of "249 - k"] assms
  have "1152921504606846976 \<le> frameSumI 249" by simp
  with frame_249 show False by simp
qed

lemma frameSum_never_four: "frameSum k \<noteq> 4"
proof (cases "k < 250")
  case True
  then show ?thesis
    using frameSumI_before_four[of k]
    by (simp add: frameSum_units four_units units_eq)
next
  case False
  then have "1152921504606847232 \<le> frameSumI k" by (intro frameSumI_past_four) simp
  then show ?thesis
    by (simp add: frameSum_units four_units units_eq)
qed

lemma frameSum_four_iff: "4 \<le> frameSum k \<longleftrightarrow> 4 < frameSum k"
  using frameSum_never_four[of k] by auto

lemma eighteen_units: "18 = units 5188146770730811392"
  by (simp add: units_def power_int_minus)

lemma sixteen_units: "16 = units 4611686018427387904"
  by (simp add: units_def power_int_minus)

lemma zero_units: "0 = units 0"
  by (simp add: units_def)

lemma victorySum_below: "k < 20 \<Longrightarrow> victorySum k \<le> 2"
  using victory_below
  by (simp add: list_all_iff victorySum_units two_units units_le)

lemma victorySum_cross: "2 < victorySum 20"
  using victory_cross by (simp add: victorySum_units two_units units_less)

lemma victorySum_one: "victorySum 1 = tickStep"
proof -
  have "victorySumI 1 = 28823037615171176" by code_simp
  then show ?thesis by (simp add: victorySum_units tickStep_units)
qed

lemma fadd_zero_tick: "fadd 0 tickStep = tickStep"
  using victorySum_one by simp

lemma tickStep_bounds: "0 < tickStep" "tickStep \<le> 2"
  by (simp_all add: tickStep_units two_units zero_units units_less units_le
      del: of_int_numeral)

lemma frameSum_one: "frameSum 1 \<le> 18"
proof -
  have "frameSumI 1 \<le> 5188146770730811392" by code_simp
  then show ?thesis by (simp only: frameSum_units eighteen_units units_le)
qed

lemma first_frame_below: "\<not> 18 < fadd 0 frameStep"
  using frameSum_one by simp

lemma frameSum_250_forming: "4 \<le> frameSum 250" "frameSum 250 < 16"
  using frame_250
  by (simp_all only: frameSum_units four_units sixteen_units units_le units_less)



section \<open>Properties of the scene control\<close>

lemmas prim_defs = setStatusText_def setAppState_def playSound_def playBellSound_def
  playJingleBells_def playWeWishYou_def

lemmas branch_defs = fistBranch_def openBranch_def pinchBranch_def victoryBranch_def
  threeBranch_def tracingBranch_def

lemmas touch_defs = handleTouch_def touchStart_def touchMove_def touchEnd_def
  handlePhotoClick_def

lemmas gesture_defs = gestureChain_def isFist_def isOpen_def isPinch_def isVictory_def
  isThreeFinger_def isPointing_def extendedCount_def

lemma hands_chain:
  "gestureChain openHand = GOpen" "gestureChain fistHand = GFist"
  "gestureChain victoryHand = GVictory"
  "gestureChain pinchHand = GPinch" "gestureChain tracingHand = GTracing"
  by (simp_all add: gesture_defs openHand_def fistHand_def victoryHand_def
      pinchHand_def tracingHand_def)

lemma classifyHand_cases:
  "gestureChain h = GFist \<Longrightarrow> classifyHand h r st =
     setStatusText (StatusAI ((if isPointing h then [PointZoom] else []) @ [fst (fistBranch st)]))
       (snd (fistBranch st))"
  "gestureChain h = GOpen \<Longrightarrow> classifyHand h r st =
     setStatusText (StatusAI ((if isPointing h then [PointZoom] else []) @ [fst (openBranch st)]))
       (snd (openBranch st))"
  "gestureChain h = GPinch \<Longrightarrow> classifyHand h r st =
     setStatusText (StatusAI ((if isPointing h then [PointZoom] else []) @ [fst (pinchBranch r st)]))
       (snd (pinchBranch r st))"
  "gestureChain h = GVictory \<Longrightarrow> classifyHand h r st =
     setStatusText (StatusAI ((if isPointing h then [PointZoom] else []) @ [fst (victoryBranch st)]))
       (snd (victoryBranch st))"
  "gestureChain h = GThree \<Longrightarrow> classifyHand h r st =
     setStatusText (StatusAI ((if isPointing h then [PointZoom] else []) @ [fst (threeBranch st)]))
       (snd (threeBranch st))"
  "gestureChain h = GTracing \<Longrightarrow> classifyHand h r st =
     setStatusText (StatusAI ((if isPointing h then [PointZoom] else []) @ [fst (tracingBranch st)]))
       (snd (tracingBranch st))"
  by (simp_all add: classifyHand_def Let_def split_def)

subsection \<open>The latch covers the active flag\<close>

lemma latchInv_classifyHand: "latchInv st \<Longrightarrow> latchInv (classifyHand h r st)"
  by (cases "gestureChain h")
     (simp_all add: latchInv_def classifyHand_cases branch_defs triggerEpicSequence_def
        prim_defs Let_def)

lemma latchInv_predictWebcam:
  assumes "latchInv st"
  shows "latchInv (predictWebcam fr st)"
proof -
  let ?s1 = "st\<lparr>lastPredictionTime := now fr\<rparr>"
  let ?s2 = "st\<lparr>lastPredictionTime := now fr, lastVideoTime := videoTime fr\<rparr>"
  have a: "latchInv ?s1" "latchInv ?s2"
    using assms by (simp_all add: latchInv_def)
  have c: "latchInv (classifyHand h r ?s2)" for h r
    by (rule latchInv_classifyHand[OF a(2)])
  have d: "latchInv (setStatusText StatusSearching ?s2)"
    using assms by (simp add: latchInv_def prim_defs)
  show ?thesis
    unfolding predictWebcam_def Let_def
    by (simp add: assms a c d split: detection.splits)
qed

lemma latchInv_starHold: "latchInv st \<Longrightarrow> latchInv (starHold c st)"
  by (simp add: latchInv_def starHold_def triggerEpicSequence_def prim_defs Let_def)

lemma latchInv_epicStep: "latchInv st \<Longrightarrow> latchInv (epicStep st)"
  by (simp add: latchInv_def epicStep_def prim_defs Let_def)

lemma latchInv_shakeStep: "latchInv st \<Longrightarrow> latchInv (shakeStep st)"
  by (simp add: latchInv_def shakeStep_def)

lemma latchInv_animate: "latchInv st \<Longrightarrow> latchInv (animate tk st)"
  by (simp add: animate_def Let_def latchInv_predictWebcam latchInv_starHold
      latchInv_epicStep latchInv_shakeStep)

lemma latchInv_handleTouch: "latchInv st \<Longrightarrow> latchInv (handleTouch e st)"
  by (cases "kind e")
     (simp_all add: latchInv_def touch_defs prim_defs Let_def split: option.splits)

lemma addPhotoMesh_funpow_epic:
  "isEpicSequence ((addPhotoMesh ^^ n) st) = isEpicSequence st
   \<and> hasTriggeredEpic ((addPhotoMesh ^^ n) st) = hasTriggeredEpic st
   \<and> blessingCount ((addPhotoMesh ^^ n) st) = blessingCount st
   \<and> sounds ((addPhotoMesh ^^ n) st) = sounds st"
  by (induction n) (simp_all add: addPhotoMesh_def)

lemma latchInv_photoEffect: "latchInv st \<Longrightarrow> latchInv (photoEffect st)"
  by (simp add: latchInv_def photoEffect_def prim_defs addPhotoMesh_funpow_epic)

lemma latchInv_step: "latchInv st \<Longrightarrow> latchInv (step e st)"
proof (cases e)
  case (Animate tk)
  assume "latchInv st"
  then show ?thesis using Animate by (simp add: latchInv_animate)
next
  case (Pointer ev)
  assume "latchInv st"
  then show ?thesis using Pointer by (simp add: latchInv_handleTouch)
next
  case PhotoLoaded
  assume "latchInv st"
  then have "latchInv (st\<lparr>uploadedImages := uploadedImages st + 1\<rparr>)"
    by (simp add: latchInv_def)
  then show ?thesis using PhotoLoaded by (simp add: latchInv_photoEffect)
qed (simp_all add: latchInv_def commitEffect_def prim_defs Let_def)

lemma latchInv_run: "latchInv st \<Longrightarrow> latchInv (run evs st)"
  by (induction evs arbitrary: st) (simp_all add: latchInv_step)

text \<open>
  The run used below: a press on the star at time 1000 and a frame three seconds later,
  which completes the hold and triggers the sequence.
\<close>

lemma star_hold_run:
  "isEpicSequence (run [Pointer starPress, Animate (idleTick 4000)] initialScene)"
  "blessingCount (run [Pointer starPress, Animate (idleTick 4000)] initialScene) = 1"
  by (simp_all add: starPress_def idleTick_def noFrame_def initialScene_def touch_defs
      touchCount_def animate_def predictWebcam_def starHold_def epicStep_def shakeStep_def
      triggerEpicSequence_def prim_defs Let_def first_frame_below)

text \<open>
  Claim C4: in every state that a run of the handlers reaches from a scene whose
  sequence is not active, a call of \<open>triggerEpicSequence\<close> while the sequence is active
  or the latch is set returns the state unchanged: the elapsed timer, the blessing
  counter and the list of scheduled cues are as before.
\<close>

theorem C4_single_flight:
  assumes "\<not> isEpicSequence s0"
    and "isEpicSequence (run evs s0) \<or> hasTriggeredEpic (run evs s0)"
  shows "triggerEpicSequence (run evs s0) = run evs s0"
proof -
  have "latchInv s0" using assms(1) by (simp add: latchInv_def)
  then have "latchInv (run evs s0)" by (rule latchInv_run)
  with assms(2) have "hasTriggeredEpic (run evs s0)" by (auto simp: latchInv_def)
  then show ?thesis by (simp add: triggerEpicSequence_def)
qed

theorem C4_single_flight_witness:
  "\<not> isEpicSequence initialScene
   \<and> isEpicSequence (run [Pointer starPress, Animate (idleTick 4000)] initialScene)
   \<and> triggerEpicSequence (run [Pointer starPress, Animate (idleTick 4000)] initialScene)
       = run [Pointer starPress, Animate (idleTick 4000)] initialScene"
proof -
  have a: "\<not> isEpicSequence initialScene" by (simp add: initialScene_def)
  have b: "isEpicSequence (run [Pointer starPress, Animate (idleTick 4000)] initialScene)"
    by (rule star_hold_run)
  from C4_single_flight[OF a, of "[Pointer starPress, Animate (idleTick 4000)]"] a b
  show ?thesis by blast
qed

subsection \<open>A trigger takes effect at most once\<close>

lemma spends_refl: "spends s s"
  by (simp add: spends_def)

lemma spends_trans: "spends s t \<Longrightarrow> spends t u \<Longrightarrow> spends s u"
  by (auto simp: spends_def)

lemma spends_core: "epicCore s' = epicCore s \<Longrightarrow> spends s s'"
  by (simp add: spends_def epicBudget_def epicCore_def)

lemma spends_trigger: "spends st (triggerEpicSequence st)"
  by (simp add: spends_def epicBudget_def cueCount_def triggerEpicSequence_def prim_defs Let_def)

lemma spends_classifyHand: "spends st (classifyHand h r st)"
  by (cases "gestureChain h")
     (simp_all add: spends_def epicBudget_def cueCount_def classifyHand_cases branch_defs
        triggerEpicSequence_def prim_defs Let_def)

lemma spends_predictWebcam: "spends st (predictWebcam fr st)"
proof -
  let ?s1 = "st\<lparr>lastPredictionTime := now fr\<rparr>"
  let ?s2 = "st\<lparr>lastPredictionTime := now fr, lastVideoTime := videoTime fr\<rparr>"
  have a: "spends st ?s1"
    by (simp add: spends_def epicBudget_def cueCount_def)
  have b: "spends st ?s2"
    by (simp add: spends_def epicBudget_def cueCount_def)
  have c: "spends st (classifyHand h r ?s2)" for h r
    by (rule spends_trans[OF b spends_classifyHand])
  have d: "spends st (setStatusText StatusSearching ?s2)"
    by (simp add: spends_def epicBudget_def cueCount_def prim_defs)
  show ?thesis
    unfolding predictWebcam_def Let_def
    by (simp add: spends_refl a b c d split: detection.splits)
qed

lemma spends_starHold: "spends st (starHold c st)"
  by (simp add: spends_def epicBudget_def cueCount_def starHold_def triggerEpicSequence_def
      prim_defs Let_def)

lemma spends_epicStep: "spends st (epicStep st)"
  by (simp add: spends_def epicBudget_def cueCount_def epicStep_def prim_defs Let_def)

lemma spends_shakeStep: "spends st (shakeStep st)"
  by (simp add: spends_def epicBudget_def cueCount_def shakeStep_def)

lemma spends_animate: "spends st (animate tk st)"
proof -
  let ?p = "predictWebcam (frame tk) st"
  have "spends st ?p" by (rule spends_predictWebcam)
  moreover have "spends ?p (starHold (clock tk) ?p)" by (rule spends_starHold)
  moreover have "spends (starHold (clock tk) ?p) (epicStep (starHold (clock tk) ?p))"
    by (rule spends_epicStep)
  moreover have "spends (epicStep (starHold (clock tk) ?p))
      (shakeStep (epicStep (starHold (clock tk) ?p)))"
    by (rule spends_shakeStep)
  ultimately have "spends st (shakeStep (epicStep (starHold (clock tk) ?p)))"
    by (blast intro: spends_trans)
  then show ?thesis
    by (simp add: animate_def Let_def spends_predictWebcam)
qed

lemma prim_epicCore:
  "epicCore (setStatusText x st) = epicCore st"
  "epicCore (setAppState a st) = epicCore st"
  "epicCore (playBellSound st) = epicCore st"
  "epicCore (playJingleBells st) = epicCore st"
  by (simp_all add: epicCore_def cueCount_def prim_defs)

lemma epicCore_handlePhotoClick: "epicCore (handlePhotoClick h st) = epicCore st"
  by (simp add: handlePhotoClick_def prim_epicCore split: option.splits)
     (simp add: epicCore_def cueCount_def)

lemma epicCore_touchStart: "epicCore (touchStart e st) = epicCore st"
  by (simp add: touchStart_def Let_def epicCore_def cueCount_def)

lemma epicCore_touchMove: "epicCore (touchMove e st) = epicCore st"
  by (simp add: touchMove_def Let_def epicCore_def cueCount_def split: option.splits)

lemma epicCore_touchEnd: "epicCore (touchEnd e st) = epicCore st"
proof -
  have u: "epicCore (s\<lparr>shakeIntensity := a\<rparr>) = epicCore s"
    "epicCore (s\<lparr>lastTapTime := b\<rparr>) = epicCore s"
    "epicCore (s\<lparr>isGoldMode := c, goldModeTimer := d\<rparr>) = epicCore s"
    "epicCore (s\<lparr>repulsionPoint := f, isHoldingStar := g, holdProgress := h\<rparr>) = epicCore s"
    for s a b c d f g h
    by (simp_all add: epicCore_def cueCount_def)
  show ?thesis
    unfolding touchEnd_def Let_def
    by (simp add: u prim_epicCore epicCore_handlePhotoClick)
qed

lemma epicCore_handleTouch: "epicCore (handleTouch e st) = epicCore st"
proof -
  have u: "epicCore (s\<lparr>touches := a\<rparr>) = epicCore s" for s a
    by (simp add: epicCore_def cueCount_def)
  show ?thesis
    unfolding handleTouch_def Let_def
    by (simp add: u epicCore_touchStart epicCore_touchMove epicCore_touchEnd
        split: touch_kind.splits)
qed

lemma epicCore_photoEffect: "epicCore (photoEffect st) = epicCore st"
  by (simp add: photoEffect_def prim_epicCore)
     (simp add: epicCore_def cueCount_def addPhotoMesh_funpow_epic)

lemma spends_step: "spends st (step e st)"
proof (cases e)
  case (Animate tk)
  then show ?thesis by (simp add: spends_animate)
next
  case (Pointer ev)
  then show ?thesis by (simp add: spends_core epicCore_handleTouch)
next
  case PhotoLoaded
  have "epicCore (photoEffect (st\<lparr>uploadedImages := uploadedImages st + 1\<rparr>)) = epicCore st"
    by (simp add: epicCore_photoEffect) (simp add: epicCore_def cueCount_def)
  then show ?thesis using PhotoLoaded by (simp add: spends_core)
qed (simp_all add: spends_def epicBudget_def cueCount_def commitEffect_def prim_defs Let_def)

lemma spends_run: "spends st (run evs st)"
proof (induction evs arbitrary: st)
  case Nil
  show ?case by (simp add: spends_refl)
next
  case (Cons e evs)
  show ?case using spends_trans[OF spends_step Cons.IH] by simp
qed

text \<open>
  Claim C10: over any run of the handlers from any scene, the blessing counter grows by
  at most one and the cue of the epic sequence is scheduled at most once more; once the
  latch is set it stays set (also after the sequence has ended), and from then on the
  counter and the number of scheduled cues do not change.
\<close>

theorem C10_epic_at_most_once:
  "blessingCount (run evs st) \<le> blessingCount st + 1
   \<and> count_list (sounds (run evs st)) WeWishYou \<le> count_list (sounds st) WeWishYou + 1
   \<and> (hasTriggeredEpic st \<longrightarrow>
        hasTriggeredEpic (run evs st)
        \<and> blessingCount (run evs st) = blessingCount st
        \<and> count_list (sounds (run evs st)) WeWishYou = count_list (sounds st) WeWishYou)"
  using spends_run[of st evs]
  by (auto simp: spends_def epicBudget_def cueCount_def split: if_splits)

theorem C10_epic_at_most_once_witness:
  "hasTriggeredEpic epicRunning
   \<and> hasTriggeredEpic (run [Pointer starPress, Animate (idleTick 4000)] epicRunning)
   \<and> blessingCount (run [Pointer starPress, Animate (idleTick 4000)] epicRunning) = 1
   \<and> blessingCount (run [Pointer starPress, Animate (idleTick 4000)] initialScene)
       \<le> blessingCount initialScene + 1"
proof -
  have a: "hasTriggeredEpic epicRunning" "blessingCount epicRunning = 1"
    by (simp_all add: epicRunning_def)
  from C10_epic_at_most_once[of "[Pointer starPress, Animate (idleTick 4000)]" epicRunning]
    C10_epic_at_most_once[of "[Pointer starPress, Animate (idleTick 4000)]" initialScene] a
  show ?thesis by simp
qed

subsection \<open>Display mode while the epic sequence runs\<close>







subsection \<open>Hold timers\<close>

lemma trigger_sel:
  "hasTriggeredEpic (triggerEpicSequence st) = True"
  "isEpicSequence (triggerEpicSequence st) = (if hasTriggeredEpic st then isEpicSequence st else True)"
  "blessingCount (triggerEpicSequence st) =
     (if hasTriggeredEpic st then blessingCount st else blessingCount st + 1)"
  "victoryTimer (triggerEpicSequence st) = victoryTimer st"
  by (simp_all add: triggerEpicSequence_def prim_defs Let_def)

lemma victoryTick_sel:
  "victoryTimer (victoryTick st) =
     (if fadd (victoryTimer st) tickStep > 2 \<and> \<not> isEpicSequence st then 0
      else fadd (victoryTimer st) tickStep)"
  "isEpicSequence (victoryTick st) =
     (if fadd (victoryTimer st) tickStep > 2 \<and> \<not> isEpicSequence st \<and> \<not> hasTriggeredEpic st
      then True else isEpicSequence st)"
  "hasTriggeredEpic (victoryTick st) =
     (if fadd (victoryTimer st) tickStep > 2 \<and> \<not> isEpicSequence st then True
      else hasTriggeredEpic st)"
  "blessingCount (victoryTick st) =
     (if fadd (victoryTimer st) tickStep > 2 \<and> \<not> isEpicSequence st \<and> \<not> hasTriggeredEpic st
      then blessingCount st + 1 else blessingCount st)"
  by (simp_all add: victoryTick_def victoryBranch_def Let_def trigger_sel)

lemma holdCore_victoryTick:
  assumes "holdCore s = holdCore t"
  shows "holdCore (victoryTick s) = holdCore (victoryTick t)"
proof -
  from assms have e: "victoryTimer s = victoryTimer t" "isEpicSequence s = isEpicSequence t"
    "hasTriggeredEpic s = hasTriggeredEpic t" "blessingCount s = blessingCount t"
    by (simp_all add: holdCore_def)
  show ?thesis
    unfolding holdCore_def victoryTick_sel e ..
qed

lemma holdCore_funpow:
  "holdCore s = holdCore t \<Longrightarrow> holdCore ((victoryTick ^^ n) s) = holdCore ((victoryTick ^^ n) t)"
proof (induction n)
  case 0
  then show ?case by simp
next
  case (Suc n)
  have "holdCore (victoryTick ((victoryTick ^^ n) s)) = holdCore (victoryTick ((victoryTick ^^ n) t))"
    by (rule holdCore_victoryTick) (rule Suc.IH[OF Suc.prems])
  then show ?case by simp
qed

text \<open>
  Victory ticks in a row, from a zero timer with the sequence never triggered: the timer
  holds the double sum of the increments until tick 20, whose sum exceeds 2; that tick
  triggers the sequence and zeroes the timer, and while the sequence is active the timer
  accumulates again.
\<close>

lemma victory_run:
  assumes "victoryTimer st = 0" and "\<not> isEpicSequence st" and "\<not> hasTriggeredEpic st"
  shows "holdCore ((victoryTick ^^ n) st) =
     (if n < 20 then (victorySum n, False, False, blessingCount st)
      else (victorySum (n - 20), True, True, blessingCount st + 1))"
proof (induction n)
  case 0
  then show ?case using assms by (simp add: holdCore_def)
next
  case (Suc n)
  let ?s = "(victoryTick ^^ n) st"
  have step: "(victoryTick ^^ Suc n) st = victoryTick ?s" by simp
  consider "Suc n < 20" | "n = 19" | "20 \<le> n" by linarith
  then show ?case
  proof cases
    case 1
    with Suc have s: "victoryTimer ?s = victorySum n" "\<not> isEpicSequence ?s"
      "\<not> hasTriggeredEpic ?s" "blessingCount ?s = blessingCount st"
      by (simp_all add: holdCore_def)
    have below: "\<not> 2 < fadd (victorySum n) tickStep"
      using victorySum_below[OF 1] by simp
    have "holdCore (victoryTick ?s) = (victorySum (Suc n), False, False, blessingCount st)"
      using s below by (simp add: holdCore_def victoryTick_sel)
    then show ?thesis unfolding step using 1 by simp
  next
    case 2
    with Suc have s: "victoryTimer ?s = victorySum n" "\<not> isEpicSequence ?s"
      "\<not> hasTriggeredEpic ?s" "blessingCount ?s = blessingCount st"
      by (simp_all add: holdCore_def)
    have "(20::nat) = Suc 19" by simp
    then have "victorySum 20 = fadd (victorySum 19) tickStep"
      by (simp only: victorySum.simps)
    then have "2 < fadd (victorySum 19) tickStep"
      using victorySum_cross by simp
    then have cross: "2 < fadd (victorySum n) tickStep"
      unfolding 2 .
    have "holdCore (victoryTick ?s) = (0, True, True, blessingCount st + 1)"
      using s cross by (simp add: holdCore_def victoryTick_sel)
    then show ?thesis unfolding step using 2 by simp
  next
    case 3
    with Suc have s: "victoryTimer ?s = victorySum (n - 20)" "isEpicSequence ?s"
      "hasTriggeredEpic ?s" "blessingCount ?s = blessingCount st + 1"
      by (simp_all add: holdCore_def)
    have d: "Suc n - 20 = Suc (n - 20)" using 3 by simp
    have "holdCore (victoryTick ?s) = (victorySum (Suc (n - 20)), True, True, blessingCount st + 1)"
      using s by (simp add: holdCore_def victoryTick_sel)
    then show ?thesis unfolding step d[symmetric] using 3 by simp
  qed
qed

lemma holdCore_victory_hand:
  "gestureChain h = GVictory \<Longrightarrow> holdCore (classifyHand h r st) = holdCore (victoryTick st)"
  by (simp add: classifyHand_cases victoryTick_def holdCore_def prim_defs)

lemma holdCore_fist_hand:
  "gestureChain h = GFist \<Longrightarrow> holdCore (classifyHand h r st) = holdCore st"
  by (simp add: classifyHand_cases fistBranch_def holdCore_def prim_defs)

lemma classifyAll_append: "classifyAll (xs @ ys) st = classifyAll ys (classifyAll xs st)"
  by (induction xs arbitrary: st) simp_all

lemma holdCore_victory_hands:
  "gestureChain h = GVictory \<Longrightarrow>
     holdCore (classifyAll (replicate n (h, r)) st) = holdCore ((victoryTick ^^ n) st)"
proof (induction n arbitrary: st)
  case 0
  then show ?case by simp
next
  case (Suc n)
  have "holdCore (classifyAll (replicate n (h, r)) (classifyHand h r st))
      = holdCore ((victoryTick ^^ n) (classifyHand h r st))"
    by (rule Suc.IH[OF Suc.prems])
  also have "\<dots> = holdCore ((victoryTick ^^ n) (victoryTick st))"
    by (rule holdCore_funpow) (rule holdCore_victory_hand[OF Suc.prems])
  finally show ?case by (simp add: funpow_swap1)
qed

text \<open>
  Claim C3: both hold timers are zeroed on every tick that classifies another gesture
  than the tick before. The code zeroes them in the tracing branch only. After one
  victory tick and a fist tick the victory timer still holds one increment, and after 19
  victory ticks a fist tick leaves the sequence untriggered but the single victory tick
  that follows triggers it: the hold has been interrupted and is counted as if it had not.
\<close>

theorem C3_fist_keeps_victory_timer:
  "gestureChain victoryHand = GVictory \<and> gestureChain fistHand = GFist
   \<and> victoryTimer (classifyAll [(victoryHand, 0), (fistHand, 0)] cameraScene) = tickStep
   \<and> 0 < tickStep
   \<and> \<not> hasTriggeredEpic
         (classifyAll (replicate 19 (victoryHand, 0) @ [(fistHand, 0)]) cameraScene)
   \<and> hasTriggeredEpic
         (classifyAll (replicate 19 (victoryHand, 0) @ [(fistHand, 0), (victoryHand, 0)])
            cameraScene)"
proof -
  have c: "victoryTimer cameraScene = 0" "\<not> isEpicSequence cameraScene"
    "\<not> hasTriggeredEpic cameraScene"
    by (simp_all add: cameraScene_def initialScene_def)
  let ?v = "classifyAll (replicate 19 (victoryHand, 0)) cameraScene"
  let ?f = "classifyHand fistHand 0 ?v"
  have one: "holdCore (classifyHand victoryHand 0 cameraScene) = holdCore (victoryTick cameraScene)"
    by (rule holdCore_victory_hand) (rule hands_chain)
  have "holdCore (classifyAll [(victoryHand, 0), (fistHand, 0)] cameraScene)
      = holdCore (victoryTick cameraScene)"
    using holdCore_fist_hand[of fistHand 0 "classifyHand victoryHand 0 cameraScene"] one
    by (simp add: hands_chain)
  then have 1: "victoryTimer (classifyAll [(victoryHand, 0), (fistHand, 0)] cameraScene) = tickStep"
    using tickStep_bounds(2) by (simp add: holdCore_def victoryTick_sel c fadd_zero_tick)
  have "holdCore ?v = holdCore ((victoryTick ^^ 19) cameraScene)"
    by (rule holdCore_victory_hands) (rule hands_chain)
  then have v: "holdCore ?v = (victorySum 19, False, False, blessingCount cameraScene)"
    using victory_run[OF c, of 19] by simp
  have f: "holdCore ?f = holdCore ?v"
    by (rule holdCore_fist_hand) (rule hands_chain)
  with v have 2: "\<not> hasTriggeredEpic ?f" by (simp add: holdCore_def)
  from f v have fs: "victoryTimer ?f = victorySum 19" "\<not> isEpicSequence ?f"
    by (simp_all add: holdCore_def)
  have "(20::nat) = Suc 19" by simp
  then have "victorySum 20 = fadd (victorySum 19) tickStep"
    by (simp only: victorySum.simps)
  then have cross: "2 < fadd (victorySum 19) tickStep"
    using victorySum_cross by simp
  have "holdCore (classifyHand victoryHand 0 ?f) = holdCore (victoryTick ?f)"
    by (rule holdCore_victory_hand) (rule hands_chain)
  then have 3: "hasTriggeredEpic (classifyHand victoryHand 0 ?f)"
    using cross by (simp add: holdCore_def victoryTick_sel fs)
  show ?thesis
    using 1 2 3 tickStep_bounds(1) by (simp add: classifyAll_append hands_chain)
qed

subsection \<open>Alternating gestures\<close>

lemma alternating_run:
  assumes "alternating (map (\<lambda>hr. gestureChain (fst hr)) hs)"
    and "victoryTimer st = 0
         \<or> (victoryTimer st \<le> tickStep \<and> (hs = [] \<or> gestureChain (fst (hd hs)) = GTracing))"
  shows "victoryTimer (classifyAll hs st) \<le> tickStep"
  using assms
proof (induction hs arbitrary: st)
  case Nil
  then show ?case using tickStep_bounds(1) by auto
next
  case (Cons hr hs)
  let ?st' = "classifyHand (fst hr) (snd hr) st"
  have g: "gestureChain (fst hr) = GVictory \<or> gestureChain (fst hr) = GTracing"
    using Cons.prems(1) by (cases hs) auto
  have alt: "alternating (map (\<lambda>hr. gestureChain (fst hr)) hs)"
    using Cons.prems(1) by (cases hs) auto
  from g show ?case
  proof
    assume v: "gestureChain (fst hr) = GVictory"
    with Cons.prems(2) have z: "victoryTimer st = 0" by auto
    have vt: "victoryTimer ?st' \<le> tickStep"
      using v z tickStep_bounds
      by (simp add: classifyHand_cases victoryBranch_def prim_defs Let_def fadd_zero_tick)
    have nxt: "hs = [] \<or> gestureChain (fst (hd hs)) = GTracing"
      using Cons.prems(1) v by (cases hs) auto
    show ?thesis using Cons.IH[OF alt, of ?st'] vt nxt by simp
  next
    assume t: "gestureChain (fst hr) = GTracing"
    have "victoryTimer ?st' = 0"
      using t by (simp add: classifyHand_cases tracingBranch_def prim_defs)
    then show ?thesis using Cons.IH[OF alt, of ?st'] by simp
  qed
qed

lemma alternating_take: "alternating gs \<Longrightarrow> alternating (take n gs)"
proof (induction gs arbitrary: n rule: alternating.induct)
  case 1
  then show ?case by simp
next
  case (2 g)
  then show ?case by (cases n) simp_all
next
  case (3 g g' rest)
  show ?case
  proof (cases n)
    case 0
    then show ?thesis by simp
  next
    case (Suc m)
    show ?thesis
    proof (cases m)
      case 0
      with Suc 3 show ?thesis by auto
    next
      case (Suc k)
      with \<open>n = Suc m\<close> 3(1)[of "Suc k"] 3(2) show ?thesis by auto
    qed
  qed
qed

text \<open>
  Claim C7: on a run of classification ticks that alternates between victory and
  tracing, started with the victory timer at zero, the timer is at most one increment
  (\<open>tickStep\<close>, the double of 0.1) after every prefix of the run: a tracing tick sets
  it to zero, so the victory tick that follows starts from zero again.
\<close>

theorem C7_alternating_never_accumulates:
  assumes "alternating (map (\<lambda>hr. gestureChain (fst hr)) hs)" and "victoryTimer st = 0"
  shows "victoryTimer (classifyAll (take n hs) st) \<le> tickStep"
proof -
  have "alternating (map (\<lambda>hr. gestureChain (fst hr)) (take n hs))"
    using alternating_take[OF assms(1), of n] by (simp add: take_map)
  then show ?thesis using assms(2) by (intro alternating_run) simp_all
qed

theorem C7_alternating_witness:
  "alternating (map (\<lambda>hr. gestureChain (fst hr))
       [(victoryHand, 0), (tracingHand, 0), (victoryHand, 0)])
   \<and> victoryTimer cameraScene = 0
   \<and> victoryTimer (classifyAll (take 3 [(victoryHand, 0), (tracingHand, 0), (victoryHand, 0)])
        cameraScene) \<le> tickStep"
proof -
  have a: "alternating (map (\<lambda>hr. gestureChain (fst hr))
       [(victoryHand, 0), (tracingHand, 0), (victoryHand, 0)])"
    by (simp add: hands_chain)
  have z: "victoryTimer cameraScene = 0"
    by (simp add: cameraScene_def initialScene_def)
  from C7_alternating_never_accumulates[OF a z, of 3] a z show ?thesis by blast
qed

subsection \<open>Pinch selection\<close>

text \<open>
  Claim C9: a pinch on its rising edge warns when no photo card is mounted and selects a
  card and enters \<open>ZOOM\<close> otherwise. The code clears its pinch latch in the tracing branch
  only. With three cards mounted, a pinch selects a card; the open hand that follows sets
  the mode to \<open>SCATTER\<close> and leaves the latch set, so the pinch after it, a rising edge,
  selects nothing and the mode stays \<open>SCATTER\<close>. With no card mounted the same three ticks
  set the warning once, on the first pinch only; and the status that the first pinch
  leaves is the gesture line, which the same call sets after the warning.
\<close>

theorem C9_pinch_after_open_hand:
  "gestureChain pinchHand = GPinch \<and> gestureChain openHand = GOpen
   \<and> photoCount withPhotos = 3
   \<and> appState (classifyAll [(pinchHand, 1 / 2)] withPhotos) = ZOOM
   \<and> appState (classifyAll [(pinchHand, 1 / 2), (openHand, 0)] withPhotos) = SCATTER
   \<and> appState (classifyAll [(pinchHand, 1 / 2), (openHand, 0), (pinchHand, 1 / 2)] withPhotos)
       = SCATTER
   \<and> photoCount cameraScene = 0
   \<and> statusLog (classifyAll [(pinchHand, 0), (openHand, 0), (pinchHand, 0)] cameraScene)
       = [StatusNoPhotos, StatusAI [PinchSelect], StatusAI [OpenScatter], StatusAI [PinchSelect]]
   \<and> last (statusLog (classifyHand pinchHand 0 cameraScene)) = StatusAI [PinchSelect]"
proof -
  have p: "\<not> isPointing pinchHand" "\<not> isPointing openHand"
    by (simp_all add: isPointing_def pinchHand_def openHand_def)
  show ?thesis
    by (simp add: hands_chain p classifyHand_cases pinchBranch_def openBranch_def prim_defs
        Let_def withPhotos_def cameraScene_def initialScene_def)
qed

subsection \<open>The victory timer counts classifications, not time\<close>




















lemma animateAll_append: "animateAll (xs @ ys) st = animateAll ys (animateAll xs st)"
  by (induction xs arbitrary: st) simp_all









subsection \<open>The epic timer holds a sum of frame steps\<close>

text \<open>
  The timer of the epic sequence is written in two places: the trigger sets it to zero
  and the epic step of a frame adds \<open>frameStep\<close>. So in every scene that a run of the
  handlers reaches, it holds the double sum of some number of frame steps.
\<close>

lemma timerInv_keep:
  assumes "epicTimer s' = epicTimer s \<or> epicTimer s' = 0" and "timerInv s"
  shows "timerInv s'"
proof -
  from assms(2) obtain k where k: "epicTimer s = frameSum k"
    by (auto simp: timerInv_def)
  from assms(1) show ?thesis
  proof
    assume "epicTimer s' = epicTimer s"
    with k have "epicTimer s' = frameSum k" by simp
    then show ?thesis unfolding timerInv_def by (rule exI)
  next
    assume "epicTimer s' = 0"
    then have "epicTimer s' = frameSum 0" by simp
    then show ?thesis unfolding timerInv_def by (rule exI)
  qed
qed

lemma epicTimer_classifyHand:
  "epicTimer (classifyHand h r st) = epicTimer st \<or> epicTimer (classifyHand h r st) = 0"
  by (cases "gestureChain h")
     (simp_all add: classifyHand_cases branch_defs triggerEpicSequence_def prim_defs Let_def)

lemma epicTimer_predictWebcam:
  "epicTimer (predictWebcam fr st) = epicTimer st \<or> epicTimer (predictWebcam fr st) = 0"
proof -
  let ?s2 = "st\<lparr>lastPredictionTime := now fr, lastVideoTime := videoTime fr\<rparr>"
  have c: "epicTimer (classifyHand h r ?s2) = epicTimer st
      \<or> epicTimer (classifyHand h r ?s2) = 0" for h r
    using epicTimer_classifyHand[of h r ?s2] by simp
  show ?thesis
    unfolding predictWebcam_def Let_def
    using c by (simp add: prim_defs split: detection.splits)
qed

lemma epicTimer_starHold:
  "epicTimer (starHold c st) = epicTimer st \<or> epicTimer (starHold c st) = 0"
  by (simp add: starHold_def triggerEpicSequence_def prim_defs Let_def)

lemma timerInv_epicStep:
  assumes "timerInv st"
  shows "timerInv (epicStep st)"
proof -
  from assms obtain k where k: "epicTimer st = frameSum k"
    by (auto simp: timerInv_def)
  have "epicTimer (epicStep st) = frameSum (if isEpicSequence st then Suc k else k)"
    using k by (simp add: epicStep_def Let_def prim_defs)
  then show ?thesis unfolding timerInv_def by (rule exI)
qed

lemma timerInv_animate:
  assumes "timerInv st"
  shows "timerInv (animate tk st)"
proof -
  let ?p = "predictWebcam (frame tk) st"
  let ?h = "starHold (clock tk) ?p"
  have p: "timerInv ?p"
    by (rule timerInv_keep[OF epicTimer_predictWebcam assms])
  have h: "timerInv ?h"
    by (rule timerInv_keep[OF epicTimer_starHold p])
  have e: "timerInv (epicStep ?h)"
    by (rule timerInv_epicStep[OF h])
  have "epicTimer (shakeStep (epicStep ?h)) = epicTimer (epicStep ?h)"
    by (simp add: shakeStep_def)
  then have "timerInv (shakeStep (epicStep ?h))"
    using e by (simp add: timerInv_def)
  with p show ?thesis by (simp add: animate_def Let_def)
qed

lemma epicTimer_handleTouch: "epicTimer (handleTouch e st) = epicTimer st"
  by (cases "kind e")
     (simp_all add: touch_defs prim_defs Let_def split: option.splits)

lemma addPhotoMesh_funpow_timer: "epicTimer ((addPhotoMesh ^^ n) st) = epicTimer st"
  by (induction n) (simp_all add: addPhotoMesh_def)

lemma epicTimer_photoEffect: "epicTimer (photoEffect st) = epicTimer st"
  by (simp add: photoEffect_def prim_defs addPhotoMesh_funpow_timer)

lemma timerInv_step:
  assumes "timerInv st"
  shows "timerInv (step e st)"
proof (cases e)
  case (Animate tk)
  then show ?thesis using assms by (simp add: timerInv_animate)
next
  case (Pointer ev)
  then show ?thesis using assms by (simp add: timerInv_def epicTimer_handleTouch)
next
  case PhotoLoaded
  then show ?thesis using assms by (simp add: timerInv_def epicTimer_photoEffect)
qed (insert assms, simp_all add: timerInv_def commitEffect_def prim_defs Let_def)

lemma timerInv_run: "timerInv st \<Longrightarrow> timerInv (run evs st)"
  by (induction evs arbitrary: st) (simp_all add: timerInv_step)

lemma epicTimer_reachable: "\<exists>k. epicTimer (run evs initialScene) = frameSum k"
proof -
  have "epicTimer initialScene = frameSum 0" by (simp add: initialScene_def)
  then have "timerInv initialScene" unfolding timerInv_def by (rule exI)
  then have "timerInv (run evs initialScene)" by (rule timerInv_run)
  then show ?thesis by (simp add: timerInv_def)
qed

section \<open>Properties of the particle update\<close>

lemma distanceTo_lerp:
  assumes "0 \<le> alpha" and "alpha \<le> 1"
  shows "distanceTo (lerp a t alpha) t = (1 - alpha) * distanceTo a t"
proof -
  have "distanceToSquared (lerp a t alpha) t = (1 - alpha)\<^sup>2 * distanceToSquared a t"
    by (simp add: distanceToSquared_def lerp_def V3_def power2_eq_square algebra_simps)
  then have "distanceTo (lerp a t alpha) t = \<bar>1 - alpha\<bar> * distanceTo a t"
    by (simp add: distanceTo_def real_sqrt_mult)
  with assms show ?thesis by simp
qed

lemma distanceTo_nonneg: "0 \<le> distanceTo a b"
  by (simp add: distanceTo_def distanceToSquared_def)

lemma speed_range: "0 \<le> speed env \<and> speed env \<le> 1"
  by (simp add: speed_def)

lemma nudge_no_repel: "\<not> repelApplies env item \<Longrightarrow> nudge env item = currentPos item"
  by (auto simp: repelApplies_def nudge_def Let_def split: option.splits)

lemma lerp_self: "lerp a a alpha = a"
  by (simp add: lerp_def V3_def)

lemma nudged_then_eased:
  "currentPos (fst (updateItem envRepel Gold 0 atOrigin)) = V3 (- 0.19) 0 0"
  by (simp add: updateItem_def envRepel_def atOrigin_def Let_def ease_def nudge_def
      resolveTarget_def guardedTarget_def speed_def formingText_def distanceTo_def
      distanceToSquared_def V3_def normalize_def length3_def lengthSq_def sub_def add_def
      multiplyScalar_def divideScalar_def lerp_def)

text \<open>
  Claim C2 says that a tick never moves a particle away from its resolved target, also
  while a repulsion point is active. It fails with the repulsion point: a gold particle
  resting on its tree target at the origin, with the repulsion point one unit away in
  tree mode, is pushed 0.2 away and eased back by a twentieth of that, so it ends 0.19
  from the target it started on.
\<close>

theorem C2_repulsion_counterexample:
  "resolveTarget envRepel Gold 0 atOrigin = Some (V3 0 0 0)
   \<and> \<not> distanceTo (currentPos (fst (updateItem envRepel Gold 0 atOrigin))) (V3 0 0 0)
         \<le> distanceTo (currentPos atOrigin) (V3 0 0 0)"
proof -
  have "resolveTarget envRepel Gold 0 atOrigin = Some (V3 0 0 0)"
    by (simp add: resolveTarget_def envRepel_def atOrigin_def)
  moreover have "distanceTo (currentPos atOrigin) (V3 0 0 0) = 0"
    by (simp add: distanceTo_def distanceToSquared_def atOrigin_def V3_def)
  moreover have "distanceTo (V3 (- 0.19) 0 0) (V3 0 0 0) > 0"
    by (simp add: distanceTo_def distanceToSquared_def V3_def)
  ultimately show ?thesis by (simp add: nudged_then_eased)
qed

text \<open>
  Claim C2, amended: on a tick that does not nudge the particle (no repulsion point, a
  mode other than tree, the epic sequence running, or the point 18 units or more away),
  the distance from the particle to its resolved target after the tick is at most the
  distance before it. A target that is not there counts as the particle's own position.
\<close>

theorem C2_monotone_without_repulsion:
  assumes "\<not> repelApplies env item"
  shows "distanceTo (currentPos (fst (updateItem env ty i item)))
           (guardedTarget (resolveTarget env ty i item) (currentPos item))
         \<le> distanceTo (currentPos item)
           (guardedTarget (resolveTarget env ty i item) (currentPos item))"
proof -
  let ?t = "guardedTarget (resolveTarget env ty i item) (currentPos item)"
  have cur: "currentPos (fst (updateItem env ty i item)) = lerp (currentPos item) ?t (speed env)"
    using assms by (simp add: updateItem_def Let_def ease_def nudge_no_repel)
  have "distanceTo (lerp (currentPos item) ?t (speed env)) ?t
          = (1 - speed env) * distanceTo (currentPos item) ?t"
    using speed_range by (simp add: distanceTo_lerp)
  also have "\<dots> \<le> 1 * distanceTo (currentPos item) ?t"
    using speed_range distanceTo_nonneg by (intro mult_right_mono) auto
  finally show ?thesis using cur by simp
qed

theorem C2_monotone_witness:
  "\<not> repelApplies envCalm atOrigin
   \<and> guardedTarget (resolveTarget envCalm Gold 0 atOrigin) (currentPos atOrigin) = V3 30 0 0
   \<and> distanceTo (currentPos (fst (updateItem envCalm Gold 0 atOrigin))) (V3 30 0 0)
        \<le> distanceTo (currentPos atOrigin) (V3 30 0 0)"
proof -
  have n: "\<not> repelApplies envCalm atOrigin"
    by (simp add: repelApplies_def envCalm_def)
  have t: "guardedTarget (resolveTarget envCalm Gold 0 atOrigin) (currentPos atOrigin) = V3 30 0 0"
    by (simp add: guardedTarget_def resolveTarget_def envCalm_def atOrigin_def)
  from C2_monotone_without_repulsion[OF n, of Gold 0] n t show ?thesis by simp
qed

lemma updateFrom_length: "length (updateFrom env ty j xs) = length xs"
  by (induction xs arbitrary: j) simp_all

lemma updateFrom_nth:
  "i < length xs \<Longrightarrow> updateFrom env ty j xs ! i = updateItem env ty (j + i) (xs ! i)"
proof (induction xs arbitrary: i j)
  case Nil
  then show ?case by simp
next
  case (Cons x xs)
  show ?case
  proof (cases i)
    case 0
    then show ?thesis by simp
  next
    case (Suc i')
    with Cons.prems have "i' < length xs" by simp
    from Cons.IH[OF this, of "Suc j"] Suc show ?thesis by simp
  qed
qed

text \<open>The entry at array position \<open>i\<close> is updated with index \<open>i\<close>.\<close>

lemma updateInstancedSystem_nth:
  assumes "i < length dataArray"
  shows "fst (updateInstancedSystem env True ty dataArray) ! i
           = fst (updateItem env ty i (dataArray ! i))"
  using assms updateFrom_nth[of i dataArray env ty 0]
  by (simp add: updateInstancedSystem_def Let_def updateFrom_length)

lemma nudge_in_epic: "isEpic env \<Longrightarrow> nudge env item = currentPos item"
  by (simp add: nudge_def split: option.splits)

text \<open>
  Claim C5 says that during the text-formation interval every gold, silver or gem
  particle takes glyph point \<open>i mod n\<close> as its target. It fails while the glyph clouds
  are not there (\<open>textTargets\<close> stays null when the scan canvas gives no 2D context): 250
  frames into the sequence, with the timer inside the interval and no clouds, a gold particle
  has its tree position as target.
\<close>

theorem C5_missing_cloud_counterexample:
  "isEpic (envText (frameSum 250) None)
   \<and> 4 \<le> epicTime (envText (frameSum 250) None)
   \<and> epicTime (envText (frameSum 250) None) < 16
   \<and> textTargets (envText (frameSum 250) None) = None
   \<and> resolveTarget (envText (frameSum 250) None) Gold 3 atOrigin = treePos atOrigin"
  using frameSum_250_forming
  by (simp add: envText_def resolveTarget_def atOrigin_def)

text \<open>
  Claim C5, amended: the timer of the epic sequence holds a sum of frame steps. During
  the text-formation interval (the sequence active, the timer in [4 s, 16 s)), provided
  the glyph clouds exist, the gold particle at array position \<open>i\<close> eases at rate 0.08
  toward point \<open>i mod n\<close> of a non-empty gold cloud, and the silver or gem particle at
  position \<open>i\<close> toward point \<open>i mod n\<close> of a non-empty silver cloud; while the clouds
  do not exist it eases at rate 0.08 toward the formation position of the display mode.
  At all other times a particle eases at rate 0.05 from its (possibly nudged) position
  toward the formation position of the display mode: the tree position in tree mode, the
  scatter position in scatter and zoom mode.
\<close>

theorem C5_text_formation_targets:
  assumes "epicTime env = frameSum k" and "i < length dataArray"
  shows
    "(isEpic env \<and> 4 \<le> epicTime env \<and> epicTime env < 16 \<longrightarrow>
        (textTargets env = Some tt \<and> gold tt \<noteq> [] \<longrightarrow>
           currentPos (fst (updateInstancedSystem env True Gold dataArray) ! i)
             = lerp (currentPos (dataArray ! i)) (gold tt ! (i mod length (gold tt))) 0.08)
      \<and> (textTargets env = Some tt \<and> silver tt \<noteq> [] \<and> (ty = Silver \<or> ty = Gem) \<longrightarrow>
           currentPos (fst (updateInstancedSystem env True ty dataArray) ! i)
             = lerp (currentPos (dataArray ! i)) (silver tt ! (i mod length (silver tt))) 0.08)
      \<and> (textTargets env = None \<longrightarrow>
           currentPos (fst (updateInstancedSystem env True ty dataArray) ! i)
             = lerp (currentPos (dataArray ! i))
                 (guardedTarget
                    (if state env = TREE then treePos (dataArray ! i)
                     else scatterPos (dataArray ! i))
                    (currentPos (dataArray ! i))) 0.08))
     \<and> (\<not> (isEpic env \<and> 4 \<le> epicTime env \<and> epicTime env < 16) \<longrightarrow>
          currentPos (fst (updateInstancedSystem env True ty dataArray) ! i)
            = lerp (nudge env (dataArray ! i))
                (guardedTarget
                   (if state env = TREE then treePos (dataArray ! i)
                    else scatterPos (dataArray ! i))
                   (nudge env (dataArray ! i))) 0.05)"
proof -
  let ?item = "dataArray ! i"
  have forming: "formingText env \<longleftrightarrow> isEpic env \<and> 4 \<le> epicTime env \<and> epicTime env < 16"
    using frameSum_four_iff[of k] by (simp add: formingText_def assms(1))
  have upd: "currentPos (fst (updateInstancedSystem env True t dataArray) ! i)
      = lerp (nudge env ?item) (guardedTarget (resolveTarget env t i ?item) (nudge env ?item))
          (speed env)" for t
    by (simp add: updateInstancedSystem_nth[OF assms(2)] updateItem_def Let_def ease_def)
  have formation: "resolveTarget env ty i ?item
      = (if state env = TREE then treePos ?item else scatterPos ?item)"
    if "\<not> formingText env \<or> textTargets env = None"
    using that by (cases "state env") (auto simp: resolveTarget_def Let_def split: option.splits)
  show ?thesis
  proof (intro conjI impI)
    assume f: "isEpic env \<and> 4 \<le> epicTime env \<and> epicTime env < 16"
      and g: "textTargets env = Some tt \<and> gold tt \<noteq> []"
    from f forming have ft: "formingText env" by simp
    have "resolveTarget env Gold i ?item = Some (gold tt ! (i mod length (gold tt)))"
      using ft g by (simp add: resolveTarget_def participatesInText_def)
    then show "currentPos (fst (updateInstancedSystem env True Gold dataArray) ! i)
             = lerp (currentPos ?item) (gold tt ! (i mod length (gold tt))) 0.08"
      using f ft by (simp add: upd nudge_in_epic guardedTarget_def speed_def)
  next
    assume f: "isEpic env \<and> 4 \<le> epicTime env \<and> epicTime env < 16"
      and g: "textTargets env = Some tt \<and> silver tt \<noteq> [] \<and> (ty = Silver \<or> ty = Gem)"
    from f forming have ft: "formingText env" by simp
    have "resolveTarget env ty i ?item = Some (silver tt ! (i mod length (silver tt)))"
      using ft g by (auto simp: resolveTarget_def participatesInText_def)
    then show "currentPos (fst (updateInstancedSystem env True ty dataArray) ! i)
             = lerp (currentPos ?item) (silver tt ! (i mod length (silver tt))) 0.08"
      using f ft by (simp add: upd nudge_in_epic guardedTarget_def speed_def)
  next
    assume f: "isEpic env \<and> 4 \<le> epicTime env \<and> epicTime env < 16"
      and g: "textTargets env = None"
    from f forming have ft: "formingText env" by simp
    show "currentPos (fst (updateInstancedSystem env True ty dataArray) ! i)
             = lerp (currentPos ?item)
                 (guardedTarget (if state env = TREE then treePos ?item else scatterPos ?item)
                    (currentPos ?item)) 0.08"
      using f ft g by (simp add: upd nudge_in_epic formation speed_def)
  next
    assume "\<not> (isEpic env \<and> 4 \<le> epicTime env \<and> epicTime env < 16)"
    with forming have nf: "\<not> formingText env" by simp
    show "currentPos (fst (updateInstancedSystem env True ty dataArray) ! i)
            = lerp (nudge env ?item)
                (guardedTarget (if state env = TREE then treePos ?item else scatterPos ?item)
                   (nudge env ?item)) 0.05"
      using nf by (simp add: upd formation speed_def)
  qed
qed

theorem C5_text_formation_witness:
  "epicTime (envText (frameSum 250) (Some glyphs)) = frameSum 250
   \<and> 3 < length [atOrigin, atOrigin, atOrigin, atOrigin]
   \<and> isEpic (envText (frameSum 250) (Some glyphs))
   \<and> 4 \<le> epicTime (envText (frameSum 250) (Some glyphs))
   \<and> epicTime (envText (frameSum 250) (Some glyphs)) < 16
   \<and> textTargets (envText (frameSum 250) (Some glyphs)) = Some glyphs
   \<and> gold glyphs \<noteq> [] \<and> silver glyphs \<noteq> []
   \<and> currentPos (fst (updateInstancedSystem (envText (frameSum 250) (Some glyphs)) True Gold
         [atOrigin, atOrigin, atOrigin, atOrigin]) ! 3) = lerp (V3 0 0 0) (V3 3 4 25) 0.08
   \<and> currentPos (fst (updateInstancedSystem (envText (frameSum 250) (Some glyphs)) True Gem
         [atOrigin, atOrigin, atOrigin, atOrigin]) ! 3) = lerp (V3 0 0 0) (V3 5 6 25) 0.08
   \<and> epicTime envCalm = frameSum 0
   \<and> \<not> (isEpic envCalm \<and> 4 \<le> epicTime envCalm \<and> epicTime envCalm < 16)
   \<and> currentPos (fst (updateInstancedSystem envCalm True Gem
         [atOrigin, atOrigin, atOrigin, atOrigin]) ! 3) = lerp (V3 0 0 0) (V3 30 0 0) 0.05"
proof -
  let ?E = "envText (frameSum 250) (Some glyphs)"
  let ?xs = "[atOrigin, atOrigin, atOrigin, atOrigin]"
  have t: "epicTime ?E = frameSum 250" "isEpic ?E" "textTargets ?E = Some glyphs"
    by (simp_all add: envText_def)
  have l: "3 < length ?xs" "?xs ! 3 = atOrigin" by simp_all
  have f: "4 \<le> epicTime ?E" "epicTime ?E < 16"
    using frameSum_250_forming by (simp_all add: t(1))
  have g: "gold glyphs \<noteq> []" "silver glyphs \<noteq> []"
    "gold glyphs ! (3 mod length (gold glyphs)) = V3 3 4 25"
    "silver glyphs ! (3 mod length (silver glyphs)) = V3 5 6 25"
    by (simp_all add: glyphs_def eval_nat_numeral mod_Suc)
  have c: "epicTime envCalm = frameSum 0" "\<not> isEpic envCalm" "state envCalm \<noteq> TREE"
    "nudge envCalm atOrigin = V3 0 0 0" "scatterPos atOrigin = Some (V3 30 0 0)"
    "currentPos atOrigin = V3 0 0 0"
    by (simp_all add: envCalm_def nudge_def atOrigin_def)
  from C5_text_formation_targets[OF t(1) l(1), of glyphs Gem] t f g l(2) c(6)
  have 1: "currentPos (fst (updateInstancedSystem ?E True Gold ?xs) ! 3)
        = lerp (V3 0 0 0) (V3 3 4 25) 0.08"
    "currentPos (fst (updateInstancedSystem ?E True Gem ?xs) ! 3)
        = lerp (V3 0 0 0) (V3 5 6 25) 0.08"
    by simp_all
  from C5_text_formation_targets[OF c(1) l(1), of glyphs Gem] c l(2)
  have 2: "currentPos (fst (updateInstancedSystem envCalm True Gem ?xs) ! 3)
        = lerp (V3 0 0 0) (V3 30 0 0) 0.05"
    by (simp add: guardedTarget_def)
  show ?thesis using t l(1) f g(1,2) c(1,2) 1 2 by simp
qed

text \<open>
  Claim C8: when the resolved target is undefined, the guard makes the particle's own
  position the target, so the easing step returns the position it was given; the position
  stored in the particle and the position written to the instance matrix are that same
  vector, and without a repulsion nudge it is the position the particle had before the
  tick.
\<close>

theorem C8_undefined_target_guard:
  assumes "resolveTarget env ty i item = None"
  shows "ease env (resolveTarget env ty i item) (nudge env item) = nudge env item
     \<and> currentPos (fst (updateItem env ty i item)) = nudge env item
     \<and> position (snd (updateItem env ty i item)) = nudge env item
     \<and> (\<not> repelApplies env item \<longrightarrow>
          currentPos (fst (updateItem env ty i item)) = currentPos item)"
  using assms
  by (simp add: updateItem_def Let_def ease_def guardedTarget_def lerp_self nudge_no_repel)

theorem C8_undefined_target_witness:
  "resolveTarget envCalm Gold 0 noTargets = None
   \<and> \<not> repelApplies envCalm noTargets
   \<and> currentPos (fst (updateItem envCalm Gold 0 noTargets)) = V3 7 8 9
   \<and> position (snd (updateItem envCalm Gold 0 noTargets)) = V3 7 8 9"
proof -
  have r: "resolveTarget envCalm Gold 0 noTargets = None"
    by (simp add: resolveTarget_def envCalm_def noTargets_def)
  have n: "\<not> repelApplies envCalm noTargets"
    by (simp add: repelApplies_def envCalm_def)
  have c: "nudge envCalm noTargets = V3 7 8 9"
    by (simp add: nudge_def envCalm_def noTargets_def)
  from C8_undefined_target_guard[OF r] n c show ?thesis using r by simp
qed

end
